theory Spec2Isabelle
  imports Main "HOL-Library.AList"
begin

section \<open>picsort: importing media files into a date-partitioned library\<close>

text \<open>
  A shallow embedding of \<^verbatim>\<open>picsort.py\<close>. The module-level globals \<^verbatim>\<open>hashes\<close> and
  \<^verbatim>\<open>copycount\<close> and the file system the program acts on are the fields of an explicit
  state record that every function takes and returns. Python strings are \<^typ>\<open>string\<close>
  (8-bit characters, so what is said about \<^verbatim>\<open>\d\<close> and \<^verbatim>\<open>\s\<close> is said for code points below
  256), file contents are byte strings of the same type. The logger calls have no effect
  on the state and are left out; where a function has several exits, the model returns
  which exit was taken. The regular expressions are read as Python 3 reads them.
  An exception that the program does not catch ends the run: it is the outcome
  \<open>Raised\<close> of the item being processed, and no further item is processed.
\<close>

subsection \<open>Strings\<close>

definition is_digit :: "char \<Rightarrow> bool" where
  \<comment> \<open>\<^verbatim>\<open>\d\<close>\<close>
  "is_digit c = (c \<in> set ''0123456789'')"

definition is_space :: "char \<Rightarrow> bool" where
  \<comment> \<open>\<^verbatim>\<open>\s\<close> of a Python 3 \<^verbatim>\<open>str\<close> pattern: the characters below 256 for which
      \<^verbatim>\<open>str.isspace\<close> holds\<close>
  "is_space c = (c \<in> set [CHR '' '', CHR 0x09, CHR 0x0A, CHR 0x0B, CHR 0x0C, CHR 0x0D,
                            CHR 0x1C, CHR 0x1D, CHR 0x1E, CHR 0x1F, CHR 0x85, CHR 0xA0])"

definition startswith :: "string \<Rightarrow> string \<Rightarrow> bool" where
  \<comment> \<open>\<^verbatim>\<open>s.startswith(p)\<close>\<close>
  "startswith p s = (take (length p) s = p)"

definition endswith :: "string \<Rightarrow> string \<Rightarrow> bool" where
  \<comment> \<open>\<^verbatim>\<open>s.endswith(p)\<close>\<close>
  "endswith p s = (length p \<le> length s \<and> drop (length s - length p) s = p)"

fun split_on :: "char \<Rightarrow> string \<Rightarrow> string list" where
  \<comment> \<open>\<^verbatim>\<open>s.split(c)\<close>: one more part than there are separators\<close>
  "split_on c [] = [[]]"
| "split_on c (x # xs) =
     (if x = c then [] # split_on c xs
      else (case split_on c xs of
              [] \<Rightarrow> [[x]]
            | w # ws \<Rightarrow> (x # w) # ws))"

definition digit_char :: "nat \<Rightarrow> char" where
  "digit_char d = char_of (48 + d)"

function str_nat :: "nat \<Rightarrow> string" where
  \<comment> \<open>\<^verbatim>\<open>str(i)\<close> of a non-negative integer: its decimal digits\<close>
  "str_nat n = (if n < 10 then [digit_char n] else str_nat (n div 10) @ [digit_char (n mod 10)])"
  by pat_completeness auto
termination
  by (relation "measure id") auto

declare str_nat.simps [simp del]

subsection \<open>Paths\<close>

type_synonym path = string

definition join :: "char \<Rightarrow> path \<Rightarrow> path \<Rightarrow> path" where
  \<comment> \<open>\<^verbatim>\<open>os.path.join(a, b)\<close> on a platform whose separator is \<open>s\<close>. For
      \<open>s = CHR ''/''\<close> this is \<^verbatim>\<open>posixpath.join\<close>; for a backslash it is what
      \<^verbatim>\<open>ntpath.join\<close> does on paths without drive letters and forward slashes.\<close>
  "join s a b =
     (if startswith [s] b then b
      else if a = [] \<or> endswith [s] a then a @ b
      else a @ [s] @ b)"

subsection \<open>The two date patterns\<close>

record date =
  year :: string
  month :: string
  day :: string

definition all_digits :: "string \<Rightarrow> bool" where
  "all_digits s = list_all is_digit s"

definition match_video :: "string \<Rightarrow> date option" where
  \<comment> \<open>\<^verbatim>\<open>re.match(r"VID_(?P<year>\d{4})(?P<month>\d{2})(?P<day>\d{2})_\d+\.mp4", filename)\<close>
      and the \<^verbatim>\<open>groupdict()\<close> of the match. \<^verbatim>\<open>re.match\<close> anchors at the start only.
      A digit run followed by a full stop can only be matched whole, so the greedy
      \<^verbatim>\<open>\d+\<close> is the longest run of digits.\<close>
  "match_video filename =
     (let ds = take 8 (drop 4 filename);
          r = drop 12 filename;
          r' = dropWhile is_digit (drop 1 r)
      in if startswith ''VID_'' filename \<and> length ds = 8 \<and> all_digits ds
            \<and> startswith ''_'' r \<and> takeWhile is_digit (drop 1 r) \<noteq> []
            \<and> startswith ''.mp4'' r'
         then Some \<lparr>year = take 4 ds, month = take 2 (drop 4 ds), day = drop 6 ds\<rparr>
         else None)"

definition dateregex_match :: "string \<Rightarrow> date option" where
  \<comment> \<open>\<^verbatim>\<open>dateregex.match(s)\<close> for
      \<^verbatim>\<open>^(\d{4}):(\d{2}):(\d{2})\s(\d{2}):(\d{2}):(\d{2})$\<close>, and the year, month and day of
      its \<^verbatim>\<open>groupdict()\<close>. In Python \<^verbatim>\<open>$\<close> matches at the end of the string and also just
      before a newline that ends the string.\<close>
  "dateregex_match s =
     (if (length s = 19 \<or> (length s = 20 \<and> s ! 19 = CHR 0x0A))
         \<and> all_digits (take 4 s) \<and> s ! 4 = CHR '':''
         \<and> all_digits (take 2 (drop 5 s)) \<and> s ! 7 = CHR '':''
         \<and> all_digits (take 2 (drop 8 s)) \<and> is_space (s ! 10)
         \<and> all_digits (take 2 (drop 11 s)) \<and> s ! 13 = CHR '':''
         \<and> all_digits (take 2 (drop 14 s)) \<and> s ! 16 = CHR '':''
         \<and> all_digits (take 2 (drop 17 s))
      then Some \<lparr>year = take 4 s, month = take 2 (drop 5 s), day = take 2 (drop 8 s)\<rparr>
      else None)"

subsection \<open>The file system, the environment and the program state\<close>

text \<open>
  The file system is a finite table from path strings to nodes. A regular file has its
  bytes, its modification time and whether it can be opened for reading. Paths are
  compared as strings, and the parent directories of a path are not tracked: the program
  only ever asks about the paths it builds itself.
\<close>

datatype node = File (content: string) (mtime: nat) (readable: bool) | Dir

type_synonym filesystem = "(path \<times> node) list"

text \<open>
  What the program cannot decide is a parameter: the platform's path separator, the
  digest function (\<^verbatim>\<open>hashlib.sha1\<close>), the value of the \<^verbatim>\<open>EXIF DateTimeOriginal\<close> tag that
  \<^verbatim>\<open>exifread.process_file\<close> finds in a file's bytes (if any), and whether
  \<^verbatim>\<open>os.makedirs\<close> and \<^verbatim>\<open>os.rename\<close> succeed.
\<close>

record env =
  sep :: char
  sha1 :: "string \<Rightarrow> string"
  exif_date :: "string \<Rightarrow> string option"
  makedirs_ok :: "path \<Rightarrow> bool"
  rename_ok :: "path \<Rightarrow> path \<Rightarrow> bool"

record state =
  fs :: filesystem
  hashes :: "((string \<times> nat) \<times> path) list"
  copycount :: nat

datatype error = OSError | IndexError

datatype outcome =
    NotFile
  | DuplicateSkipped
  | MissingSkipped
  | DirError
  | SkippedIdentical
  | Moved path
  | RenamedMoved path
  | MoveError
  | Raised error

definition path_exists :: "filesystem \<Rightarrow> path \<Rightarrow> bool" where
  \<comment> \<open>\<^verbatim>\<open>os.path.exists\<close>\<close>
  "path_exists fsys p = (map_of fsys p \<noteq> None)"

definition path_isfile :: "filesystem \<Rightarrow> path \<Rightarrow> bool" where
  \<comment> \<open>\<^verbatim>\<open>os.path.isfile\<close>\<close>
  "path_isfile fsys p = (case map_of fsys p of Some (File c m r) \<Rightarrow> True | _ \<Rightarrow> False)"

definition os_rename :: "env \<Rightarrow> filesystem \<Rightarrow> path \<Rightarrow> path \<Rightarrow> filesystem option" where
  \<comment> \<open>\<^verbatim>\<open>os.rename(src, dst)\<close>; \<open>None\<close> is \<^verbatim>\<open>OSError\<close>\<close>
  "os_rename e fsys src dst =
     (case map_of fsys src of
        None \<Rightarrow> None
      | Some n \<Rightarrow>
          if rename_ok e src dst then Some (AList.update dst n (AList.delete src fsys))
          else None)"

subsection \<open>The program\<close>

function chunkreader :: "string \<Rightarrow> string list" where
  \<comment> \<open>the chunks that \<^verbatim>\<open>fobj.read(1024)\<close> returns until the empty one\<close>
  "chunkreader bytes =
     (if bytes = [] then [] else take 1024 bytes # chunkreader (drop 1024 bytes))"
  by pat_completeness auto
termination
  by (relation "measure length") auto

declare chunkreader.simps [simp del]

definition hashfile :: "env \<Rightarrow> path \<Rightarrow> state \<Rightarrow> error + (bool \<times> state)" where
  \<comment> \<open>The hash object is fed the chunks in order; its digest is \<^verbatim>\<open>sha1\<close> of the bytes fed.
      \<^verbatim>\<open>open\<close> raises for a path that is not a readable regular file, and nothing in the
      program catches it. \<^verbatim>\<open>if duplicate:\<close> tests the stored path for being non-empty.\<close>
  "hashfile e filename st =
     (case map_of (fs st) filename of
        Some (File bytes m True) \<Rightarrow>
          (let hashobj = foldl (\<lambda>fed chunk. fed @ chunk) [] (chunkreader bytes);
               fileid = (sha1 e hashobj, length bytes)
           in case map_of (hashes st) fileid of
                Some duplicate \<Rightarrow>
                  if duplicate \<noteq> [] then Inr (False, st)
                  else Inr (True, st\<lparr>hashes := AList.update fileid filename (hashes st)\<rparr>)
              | None \<Rightarrow> Inr (True, st\<lparr>hashes := AList.update fileid filename (hashes st)\<rparr>))
      | _ \<Rightarrow> Inl OSError)"

definition comparefiles :: "filesystem \<Rightarrow> path \<Rightarrow> path \<Rightarrow> error + bool" where
  \<comment> \<open>\<^verbatim>\<open>filecmp.cmp(file1, file2)\<close> with its default \<^verbatim>\<open>shallow=True\<close>: \<^verbatim>\<open>os.stat\<close> of both
      (raising for a missing path); not equal unless both are regular files; equal
      without reading when size and modification time agree; not equal when the sizes
      differ; otherwise both files are opened and their bytes compared. The module's
      cache of earlier answers is left out: it is keyed by both paths with their sizes
      and times, and the program compares a pair of paths at most once while they
      stay as they are.\<close>
  "comparefiles fsys file1 file2 =
     (case map_of fsys file1 of
        None \<Rightarrow> Inl OSError
      | Some n1 \<Rightarrow>
         (case map_of fsys file2 of
            None \<Rightarrow> Inl OSError
          | Some n2 \<Rightarrow>
             (case n1 of
                Dir \<Rightarrow> Inr False
              | File c1 m1 r1 \<Rightarrow>
                 (case n2 of
                    Dir \<Rightarrow> Inr False
                  | File c2 m2 r2 \<Rightarrow>
                      if length c1 = length c2 \<and> m1 = m2 then Inr True
                      else if length c1 \<noteq> length c2 then Inr False
                      else if r1 \<and> r2 then Inr (c1 = c2)
                      else Inl OSError))))"

definition validatedirectory :: "env \<Rightarrow> path \<Rightarrow> state \<Rightarrow> bool \<times> state" where
  "validatedirectory e directory st =
     (if \<not> path_exists (fs st) directory then
        (if makedirs_ok e directory
         then (True, st\<lparr>fs := AList.update directory Dir (fs st)\<rparr>)
         else (False, st))
      else (True, st))"

definition newfilename :: "string \<Rightarrow> nat \<Rightarrow> string option" where
  \<comment> \<open>\<^verbatim>\<open>'{0}-{1}.{2}'.format(parts[0], i, parts[1])\<close> for \<^verbatim>\<open>parts = filename.split('.')\<close>;
      \<open>None\<close> is the \<^verbatim>\<open>IndexError\<close> of \<^verbatim>\<open>parts[1]\<close>\<close>
  "newfilename filename i =
     (case split_on CHR ''.'' filename of
        p0 # p1 # ps \<Rightarrow> Some (p0 @ ''-'' @ str_nat i @ ''.'' @ p1)
      | _ \<Rightarrow> None)"

datatype loop_exit = Break path nat | Return | Raise error

text \<open>
  The \<^verbatim>\<open>while True\<close> loop of \<^verbatim>\<open>copyfile\<close> ends because the candidate names it builds
  are pairwise different and the file system holds finitely many paths. The lemmas
  up to the termination proof establish that.
\<close>


definition nat_of_digits :: "string \<Rightarrow> nat" where
  "nat_of_digits s = foldl (\<lambda>a c. 10 * a + (of_char c - 48)) 0 s"

lemma of_char_digit_char: "d < 10 \<Longrightarrow> of_char (digit_char d) = 48 + d"
  by (simp add: digit_char_def)

lemma nat_of_digits_str_nat: "nat_of_digits (str_nat n) = n"
proof (induction n rule: str_nat.induct)
  case (1 n)
  show ?case
  proof (cases "n < 10")
    case True
    then show ?thesis
      by (subst str_nat.simps) (simp add: nat_of_digits_def of_char_digit_char)
  next
    case False
    with 1 have ih: "nat_of_digits (str_nat (n div 10)) = n div 10" by simp
    have "nat_of_digits (str_nat n) = 10 * nat_of_digits (str_nat (n div 10)) + n mod 10"
      using False by (subst str_nat.simps) (simp add: nat_of_digits_def of_char_digit_char)
    then show ?thesis using ih by simp
  qed
qed

lemma str_nat_inj: "str_nat i = str_nat j \<Longrightarrow> i = j"
  by (metis nat_of_digits_str_nat)

lemma join_inj:
  assumes "join s a (p @ x @ q) = join s a (p @ y @ q)" and "p \<noteq> []"
  shows "x = y"
proof -
  from \<open>p \<noteq> []\<close> obtain c cs where p: "p = c # cs" by (cases p) auto
  show ?thesis using assms(1) unfolding join_def startswith_def p
    by (auto split: if_splits)
qed

lemma newfilename_inj:
  assumes "newfilename f i = Some a" "newfilename f j = Some b"
    and "join s l a = join s l b"
  shows "i = j"
proof -
  from assms(1) obtain p0 p1 ps where sp: "split_on CHR ''.'' f = p0 # p1 # ps"
    by (auto simp: newfilename_def split: list.splits)
  have a: "a = (p0 @ ''-'') @ str_nat i @ (''.'' @ p1)" and b: "b = (p0 @ ''-'') @ str_nat j @ (''.'' @ p1)"
    using assms(1,2) sp by (auto simp: newfilename_def)
  have "str_nat i = str_nat j"
    using assms(3) unfolding a b by (rule join_inj) simp
  then show ?thesis by (rule str_nat_inj)
qed


definition candidates :: "char \<Rightarrow> filesystem \<Rightarrow> path \<Rightarrow> string \<Rightarrow> nat \<Rightarrow> nat set" where
  "candidates s fsys library filename i =
     {j. i \<le> j \<and> (\<exists>n. newfilename filename j = Some n \<and> path_exists fsys (join s library n))}"

lemma finite_candidates: "finite (candidates s fsys library filename i)"
proof -
  let ?K = "fst ` set fsys"
  let ?g = "\<lambda>j. case newfilename filename j of Some n \<Rightarrow> join s library n | None \<Rightarrow> []"
  have sub: "?g ` candidates s fsys library filename i \<subseteq> ?K"
    by (auto simp: candidates_def path_exists_def dest!: map_of_SomeD intro: rev_image_eqI)
  have inj: "inj_on ?g (candidates s fsys library filename i)"
    by (rule inj_onI) (auto simp: candidates_def dest: newfilename_inj)
  show ?thesis
    by (rule inj_on_finite [OF inj sub]) simp
qed

lemma candidates_step:
  assumes "newfilename filename i = Some n"
  shows "candidates s fsys library filename i =
     (if path_exists fsys (join s library n) then insert i (candidates s fsys library filename (Suc i))
      else candidates s fsys library filename (Suc i))"
  using assms by (auto simp: candidates_def Suc_le_eq le_less)

function copyloop :: "char \<Rightarrow> filesystem \<Rightarrow> path \<Rightarrow> string \<Rightarrow> path \<Rightarrow> path \<Rightarrow> nat \<Rightarrow> loop_exit" where
  "copyloop s fsys absolutepath filename library librarypath i =
     (if path_exists fsys librarypath then
        (case comparefiles fsys absolutepath librarypath of
           Inl err \<Rightarrow> Raise err
         | Inr True \<Rightarrow> Return
         | Inr False \<Rightarrow>
            (case newfilename filename i of
               None \<Rightarrow> Raise IndexError
             | Some n \<Rightarrow> copyloop s fsys absolutepath filename library (join s library n) (i + 1)))
      else Break librarypath i)"
  by pat_completeness auto
termination
proof (relation "measure (\<lambda>(s, fsys, absolutepath, filename, library, librarypath, i).
         card (candidates s fsys library filename i) + (if path_exists fsys librarypath then 1 else 0))")
  show "wf (measure (\<lambda>(s, fsys, absolutepath, filename, library, librarypath, i).
         card (candidates s fsys library filename i) + (if path_exists fsys librarypath then 1 else 0)))"
    by simp
next
  fix s :: char and fsys :: filesystem and absolutepath filename library librarypath :: path
    and i :: nat and b :: bool and n :: string
  assume ex: "path_exists fsys librarypath" and nf: "newfilename filename i = Some n"
  have fin: "finite (candidates s fsys library filename (Suc i))"
    by (rule finite_candidates)
  have notin: "i \<notin> candidates s fsys library filename (Suc i)"
    by (simp add: candidates_def)
  show "((s, fsys, absolutepath, filename, library, join s library n, i + 1),
         s, fsys, absolutepath, filename, library, librarypath, i)
        \<in> measure (\<lambda>(s, fsys, absolutepath, filename, library, librarypath, i).
         card (candidates s fsys library filename i) + (if path_exists fsys librarypath then 1 else 0))"
    using ex fin notin by (simp add: candidates_step [OF nf])
qed

declare copyloop.simps [simp del]

definition librarypath_of :: "date \<Rightarrow> string" where
  \<comment> \<open>\<^verbatim>\<open>'{0}\\{1}\\{2}'.format(metadata['year'], metadata['month'], metadata['day'])\<close>:
      the separator written into the format string is a backslash\<close>
  "librarypath_of metadata =
     year metadata @ [CHR 0x5C] @ month metadata @ [CHR 0x5C] @ day metadata"

definition copyfile :: "env \<Rightarrow> path \<Rightarrow> string \<Rightarrow> path \<Rightarrow> string \<Rightarrow> state \<Rightarrow> outcome \<times> state" where
  \<comment> \<open>\<open>librarypath\<close>, as passed in, is only logged\<close>
  "copyfile e absolutepath filename library librarypath st =
     (let (ok, st1) = validatedirectory e library st in
      if \<not> ok then (DirError, st1)
      else
        (case copyloop (sep e) (fs st1) absolutepath filename library
                (join (sep e) library filename) 1 of
           Raise err \<Rightarrow> (Raised err, st1)
         | Return \<Rightarrow> (SkippedIdentical, st1)
         | Break target i \<Rightarrow>
            (case os_rename e (fs st1) absolutepath target of
               None \<Rightarrow> (MoveError, st1)
             | Some fsys \<Rightarrow>
                 (if i = 1 then Moved target else RenamedMoved target,
                  st1\<lparr>fs := fsys, copycount := copycount st1 + 1\<rparr>))))"

definition copyimage :: "env \<Rightarrow> path \<Rightarrow> string \<Rightarrow> path \<Rightarrow> date \<Rightarrow> state \<Rightarrow> outcome \<times> state" where
  "copyimage e absolutepath filename library metadata st =
     (let librarypath = librarypath_of metadata;
          library' = join (sep e) library librarypath
      in copyfile e absolutepath filename library' librarypath st)"

definition copyvideo :: "env \<Rightarrow> path \<Rightarrow> string \<Rightarrow> path \<Rightarrow> state \<Rightarrow> outcome \<times> state" where
  "copyvideo e absolutepath filename library st =
     (case match_video filename of
        None \<Rightarrow> (MissingSkipped, st)
      | Some metadata \<Rightarrow>
          (let librarypath = librarypath_of metadata;
               library' = join (sep e) library librarypath
           in copyfile e absolutepath filename library' librarypath st))"

definition importfolder_item :: "env \<Rightarrow> path \<Rightarrow> path \<Rightarrow> string \<Rightarrow> state \<Rightarrow> outcome \<times> state" where
  \<comment> \<open>the body of the \<^verbatim>\<open>for item in os.listdir(directory)\<close> loop\<close>
  "importfolder_item e directory library item st =
     (let absolutepath = join (sep e) directory item in
      if \<not> path_isfile (fs st) absolutepath then (NotFile, st)
      else
        (case hashfile e absolutepath st of
           Inl err \<Rightarrow> (Raised err, st)
         | Inr (unique, st1) \<Rightarrow>
             if \<not> unique then (DuplicateSkipped, st1)
             else if endswith ''.mp4'' item then copyvideo e absolutepath item library st1
             else
               (case map_of (fs st1) absolutepath of
                  Some (File bytes m True) \<Rightarrow>
                    (case exif_date e bytes of
                       None \<Rightarrow> (MissingSkipped, st1)
                     | Some v \<Rightarrow>
                        (case dateregex_match v of
                           None \<Rightarrow> (MissingSkipped, st1)
                         | Some metadata \<Rightarrow>
                             copyimage e absolutepath item library metadata st1))
                | _ \<Rightarrow> (Raised OSError, st1))))"

fun is_raised :: "outcome \<Rightarrow> bool" where
  "is_raised (Raised err) = True"
| "is_raised _ = False"

fun is_moved :: "outcome \<Rightarrow> bool" where
  "is_moved (Moved p) = True"
| "is_moved (RenamedMoved p) = True"
| "is_moved _ = False"

fun importfolder :: "env \<Rightarrow> path \<Rightarrow> path \<Rightarrow> string list \<Rightarrow> state \<Rightarrow> outcome list \<times> state" where
  \<comment> \<open>\<open>items\<close> is what \<^verbatim>\<open>os.listdir(directory)\<close> returned. An exception that nothing
      catches ends the loop (and the run) at the item that raised it.\<close>
  "importfolder e directory library [] st = ([], st)"
| "importfolder e directory library (item # items) st =
     (let (out, st1) = importfolder_item e directory library item st in
      if is_raised out then ([out], st1)
      else (let (outs, st2) = importfolder e directory library items st1
            in (out # outs, st2)))"

fun main_imports :: "env \<Rightarrow> path \<Rightarrow> (path \<times> string list) list \<Rightarrow> state \<Rightarrow> outcome list \<times> state" where
  \<comment> \<open>The calls of \<^verbatim>\<open>importfolder\<close> that \<^verbatim>\<open>main\<close> makes, in order: each folder given (or
      each directory \<^verbatim>\<open>os.walk\<close> yields), with the listing \<^verbatim>\<open>os.listdir\<close> returns when the
      call is made.\<close>
  "main_imports e library [] st = ([], st)"
| "main_imports e library ((directory, items) # calls) st =
     (let (outs, st1) = importfolder e directory library items st in
      if list_ex is_raised outs then (outs, st1)
      else (let (outs', st2) = main_imports e library calls st1
            in (outs @ outs', st2)))"

definition initial :: "filesystem \<Rightarrow> state" where
  \<comment> \<open>the module's globals when a run starts: \<^verbatim>\<open>hashes = {}\<close>, \<^verbatim>\<open>copycount = 0\<close>\<close>
  "initial fsys = \<lparr>fs = fsys, hashes = [], copycount = 0\<rparr>"


subsection \<open>Sample environments\<close>

definition posix :: env where
  \<comment> \<open>a POSIX platform where nothing fails; the digest is left abstract as the identity,
      and no file carries a capture-date tag\<close>
  "posix = \<lparr>sep = CHR ''/'', sha1 = (\<lambda>bytes. bytes), exif_date = (\<lambda>bytes. None),
             makedirs_ok = (\<lambda>p. True), rename_ok = (\<lambda>p q. True)\<rparr>"

subsection \<open>Basic facts about the model\<close>


lemma foldl_append_chunks: "foldl (\<lambda>fed chunk. fed @ chunk) acc (chunkreader bytes) = acc @ bytes"
proof (induction bytes arbitrary: acc rule: chunkreader.induct)
  case (1 bytes)
  show ?case
  proof (cases "bytes = []")
    case True
    then show ?thesis by (subst chunkreader.simps) simp
  next
    case False
    have "foldl (\<lambda>fed chunk. fed @ chunk) acc (chunkreader bytes)
        = foldl (\<lambda>fed chunk. fed @ chunk) (acc @ take 1024 bytes) (chunkreader (drop 1024 bytes))"
      using False by (subst chunkreader.simps) simp
    also have "\<dots> = (acc @ take 1024 bytes) @ drop 1024 bytes"
      using False by (rule "1.IH")
    finally show ?thesis by simp
  qed
qed

definition fileid_of :: "env \<Rightarrow> string \<Rightarrow> string \<times> nat" where
  \<comment> \<open>the identity key \<^verbatim>\<open>hashfile\<close> computes for a file with the given bytes\<close>
  "fileid_of e bytes = (sha1 e bytes, length bytes)"

definition registered :: "state \<Rightarrow> string \<times> nat \<Rightarrow> bool" where
  \<comment> \<open>the test \<^verbatim>\<open>if duplicate:\<close> of \<^verbatim>\<open>hashfile\<close>: the key is in the registry, under a
      non-empty path\<close>
  "registered st k = (case map_of (hashes st) k of Some q \<Rightarrow> q \<noteq> [] | None \<Rightarrow> False)"

lemma hashfile_readable:
  assumes "map_of (fs st) p = Some (File bytes m True)"
  shows "hashfile e p st =
     (if registered st (fileid_of e bytes) then Inr (False, st)
      else Inr (True, st\<lparr>hashes := AList.update (fileid_of e bytes) p (hashes st)\<rparr>))"
  using assms
  by (simp add: hashfile_def foldl_append_chunks registered_def fileid_of_def split: option.splits)

lemma hashfile_unreadable:
  assumes "\<forall>bytes m. map_of (fs st) p \<noteq> Some (File bytes m True)"
  shows "hashfile e p st = Inl OSError"
  using assms
  by (auto simp: hashfile_def split: option.splits node.splits bool.splits)


lemma validatedirectory_frame:
  assumes "validatedirectory e d st = (ok, st1)"
  shows "hashes st1 = hashes st \<and> copycount st1 = copycount st \<and> (\<not> ok \<longrightarrow> st1 = st)"
  using assms by (auto simp: validatedirectory_def split: if_splits)

lemma copyfile_frame:
  assumes "copyfile e src f lib lp st = (out, st')"
  shows "hashes st' = hashes st \<and> copycount st' = copycount st + (if is_moved out then 1 else 0)"
proof -
  obtain ok st1 where v: "validatedirectory e lib st = (ok, st1)"
    by (cases "validatedirectory e lib st")
  from validatedirectory_frame [OF v] show ?thesis
    using assms v
    by (auto simp: copyfile_def split: if_splits loop_exit.splits option.splits)
qed

lemma copyvideo_frame:
  assumes "copyvideo e src f lib st = (out, st')"
  shows "hashes st' = hashes st \<and> copycount st' = copycount st + (if is_moved out then 1 else 0)"
  using assms copyfile_frame
  by (auto simp: copyvideo_def Let_def split: option.splits)

lemma copyimage_frame:
  assumes "copyimage e src f lib md st = (out, st')"
  shows "hashes st' = hashes st \<and> copycount st' = copycount st + (if is_moved out then 1 else 0)"
  using assms copyfile_frame
  by (auto simp: copyimage_def Let_def)

lemma item_copycount:
  assumes "importfolder_item e d lib item st = (out, st')"
  shows "copycount st' = copycount st + (if is_moved out then 1 else 0)"
proof (cases "path_isfile (fs st) (join (sep e) d item)")
  case False
  with assms show ?thesis by (auto simp: importfolder_item_def)
next
  case True
  show ?thesis
  proof (cases "hashfile e (join (sep e) d item) st")
    case (Inl err)
    with assms True show ?thesis by (auto simp: importfolder_item_def)
  next
    case (Inr r)
    obtain unique st1 where r: "r = (unique, st1)" by (cases r)
    have c1: "copycount st1 = copycount st"
      using Inr r by (auto simp: hashfile_def Let_def split: option.splits node.splits bool.splits if_splits)
    show ?thesis
      using assms True Inr r c1 copyvideo_frame [of e _ item lib st1 out st'] copyimage_frame [of e _ item lib _ st1 out st']
      by (auto simp: importfolder_item_def Let_def split: if_splits option.splits node.splits bool.splits)
  qed
qed

definition resolve_date :: "env \<Rightarrow> string \<Rightarrow> string \<Rightarrow> date option" where
  \<comment> \<open>the date that the loop body of \<^verbatim>\<open>importfolder\<close> works with: from the name when it
      ends in \<^verbatim>\<open>.mp4\<close>, from the tag otherwise\<close>
  "resolve_date e item bytes =
     (if endswith ''.mp4'' item then match_video item
      else (case exif_date e bytes of None \<Rightarrow> None | Some v \<Rightarrow> dateregex_match v))"

lemma item_readable:
  assumes "map_of (fs st) (join (sep e) d item) = Some (File bytes m True)"
  shows "importfolder_item e d lib item st =
     (if registered st (fileid_of e bytes) then (DuplicateSkipped, st)
      else
        (let st1 = st\<lparr>hashes := AList.update (fileid_of e bytes) (join (sep e) d item) (hashes st)\<rparr>
         in case resolve_date e item bytes of
              None \<Rightarrow> (MissingSkipped, st1)
            | Some md \<Rightarrow>
                copyfile e (join (sep e) d item) item (join (sep e) lib (librarypath_of md))
                  (librarypath_of md) st1))"
  using assms
  by (simp add: importfolder_item_def path_isfile_def hashfile_readable resolve_date_def
        copyvideo_def copyimage_def Let_def split: option.splits)

lemma item_not_readable:
  assumes "\<forall>bytes m. map_of (fs st) (join (sep e) d item) \<noteq> Some (File bytes m True)"
  shows "importfolder_item e d lib item st =
     (if path_isfile (fs st) (join (sep e) d item) then (Raised OSError, st) else (NotFile, st))"
  using assms by (simp add: importfolder_item_def hashfile_unreadable)

lemma item_hashes_unregistered:
  assumes f: "map_of (fs st) (join (sep e) d item) = Some (File bytes m True)"
    and n: "\<not> registered st (fileid_of e bytes)"
    and i: "importfolder_item e d lib item st = (out, st')"
  shows "hashes st' = AList.update (fileid_of e bytes) (join (sep e) d item) (hashes st)"
proof (cases "resolve_date e item bytes")
  case None
  then show ?thesis using i n item_readable [OF f, of lib] by (auto simp: Let_def)
next
  case (Some md)
  let ?st1 = "st\<lparr>hashes := AList.update (fileid_of e bytes) (join (sep e) d item) (hashes st)\<rparr>"
  have "copyfile e (join (sep e) d item) item (join (sep e) lib (librarypath_of md))
                  (librarypath_of md) ?st1 = (out, st')"
    using i n Some item_readable [OF f, of lib] by (simp add: Let_def)
  from copyfile_frame [OF this] show ?thesis by simp
qed


lemma item_hashes:
  assumes "importfolder_item e d lib item st = (out, st')"
  shows "hashes st' = hashes st \<or>
     (\<exists>bytes m. map_of (fs st) (join (sep e) d item) = Some (File bytes m True)
        \<and> \<not> registered st (fileid_of e bytes)
        \<and> hashes st' = AList.update (fileid_of e bytes) (join (sep e) d item) (hashes st))"
proof (cases "\<exists>bytes m. map_of (fs st) (join (sep e) d item) = Some (File bytes m True)")
  case False
  then have "\<forall>bytes m. map_of (fs st) (join (sep e) d item) \<noteq> Some (File bytes m True)"
    by blast
  from item_not_readable [OF this, of lib] have "st' = st"
    using assms by (simp split: if_splits)
  then show ?thesis by simp
next
  case True
  then obtain bytes m where f: "map_of (fs st) (join (sep e) d item) = Some (File bytes m True)"
    by blast
  show ?thesis
  proof (cases "registered st (fileid_of e bytes)")
    case True
    then have "st' = st" using assms item_readable [OF f, of lib] by simp
    then show ?thesis by simp
  next
    case False
    from item_hashes_unregistered [OF f False assms] show ?thesis
      using f False by blast
  qed
qed

lemma registered_update:
  assumes "registered st k" and "\<not> registered st k'"
  shows "registered (st\<lparr>hashes := AList.update k' p (hashes st)\<rparr>) k"
proof -
  have "k \<noteq> k'" using assms by auto
  then show ?thesis using assms(1) by (simp add: registered_def update_conv')
qed

lemma item_registered_mono:
  assumes "registered st k" and "importfolder_item e d lib item st = (out, st')"
  shows "registered st' k"
proof -
  from item_hashes [OF assms(2)] show ?thesis
  proof
    assume "hashes st' = hashes st"
    then show ?thesis using assms(1) by (simp add: registered_def)
  next
    assume "\<exists>bytes m. map_of (fs st) (join (sep e) d item) = Some (File bytes m True)
        \<and> \<not> registered st (fileid_of e bytes)
        \<and> hashes st' = AList.update (fileid_of e bytes) (join (sep e) d item) (hashes st)"
    then obtain bytes where n: "\<not> registered st (fileid_of e bytes)"
      and h: "hashes st' = AList.update (fileid_of e bytes) (join (sep e) d item) (hashes st)"
      by blast
    have "registered (st\<lparr>hashes := AList.update (fileid_of e bytes) (join (sep e) d item) (hashes st)\<rparr>) k"
      using assms(1) n by (rule registered_update)
    then show ?thesis using h by (simp add: registered_def)
  qed
qed

lemma importfolder_registered_mono:
  assumes "registered st k" and "importfolder e d lib items st = (outs, st')"
  shows "registered st' k"
  using assms
proof (induction items arbitrary: st outs st')
  case Nil
  then show ?case by simp
next
  case (Cons item items)
  obtain out st1 where i: "importfolder_item e d lib item st = (out, st1)"
    by (cases "importfolder_item e d lib item st")
  have r1: "registered st1 k" using Cons.prems(1) i by (rule item_registered_mono)
  show ?case
  proof (cases "is_raised out")
    case True
    then show ?thesis using Cons.prems(2) i r1 by simp
  next
    case False
    obtain outs2 st2 where f: "importfolder e d lib items st1 = (outs2, st2)"
      by (cases "importfolder e d lib items st1")
    have "registered st2 k" using r1 f by (rule Cons.IH)
    then show ?thesis using Cons.prems(2) i f False by simp
  qed
qed

lemma main_imports_registered_mono:
  assumes "registered st k" and "main_imports e lib calls st = (outs, st')"
  shows "registered st' k"
  using assms
proof (induction calls arbitrary: st outs st')
  case Nil
  then show ?case by simp
next
  case (Cons c calls)
  obtain d items where c: "c = (d, items)" by (cases c)
  obtain outs1 st1 where f: "importfolder e d lib items st = (outs1, st1)"
    by (cases "importfolder e d lib items st")
  have r1: "registered st1 k" using Cons.prems(1) f by (rule importfolder_registered_mono)
  show ?case
  proof (cases "list_ex is_raised outs1")
    case True
    then show ?thesis using Cons.prems(2) c f r1 by simp
  next
    case False
    obtain outs2 st2 where m: "main_imports e lib calls st1 = (outs2, st2)"
      by (cases "main_imports e lib calls st1")
    have "registered st2 k" using r1 m by (rule Cons.IH)
    then show ?thesis using Cons.prems(2) c f m False by simp
  qed
qed

lemma join_nonempty: "item \<noteq> [] \<Longrightarrow> join s d item \<noteq> []"
  by (simp add: join_def)

lemma item_registers:
  assumes f: "map_of (fs st) (join (sep e) d item) = Some (File bytes m True)"
    and ne: "item \<noteq> []"
    and i: "importfolder_item e d lib item st = (out, st')"
  shows "registered st' (fileid_of e bytes)"
proof (cases "registered st (fileid_of e bytes)")
  case True
  then show ?thesis using i by (rule item_registered_mono)
next
  case False
  from item_hashes_unregistered [OF f False i] show ?thesis
    using join_nonempty [OF ne, of "sep e" d]
    by (simp add: registered_def update_conv')
qed






lemmas run_defs =
  importfolder_item_def path_isfile_def hashfile_def foldl_append_chunks
  copyvideo_def copyimage_def copyfile_def validatedirectory_def path_exists_def
  comparefiles_def newfilename_def os_rename_def librarypath_of_def
  match_video_def dateregex_match_def all_digits_def is_digit_def is_space_def
  join_def startswith_def endswith_def copyloop.simps initial_def Let_def





lemma all_digits_append [simp]: "all_digits (xs @ ys) \<longleftrightarrow> all_digits xs \<and> all_digits ys"
  by (simp add: all_digits_def)

lemma takeWhile_digits:
  assumes "all_digits ns" and "\<not> is_digit c"
  shows "takeWhile is_digit (ns @ c # rest) = ns" and "dropWhile is_digit (ns @ c # rest) = c # rest"
  using assms by (induction ns) (simp_all add: all_digits_def)

lemma not_digit_stop: "\<not> is_digit CHR ''.''"
  by (simp add: is_digit_def)

lemma match_video_intro:
  assumes "length y = 4" "length mo = 2" "length dd = 2"
    and "all_digits y" "all_digits mo" "all_digits dd" "ns \<noteq> []" "all_digits ns"
  shows "match_video (''VID_'' @ y @ mo @ dd @ ''_'' @ ns @ ''.mp4'' @ rest)
         = Some \<lparr>year = y, month = mo, day = dd\<rparr>"
proof -
  let ?f = "''VID_'' @ y @ mo @ dd @ ''_'' @ ns @ ''.mp4'' @ rest"
  have d4: "drop 4 ?f = y @ mo @ dd @ ''_'' @ ns @ ''.mp4'' @ rest" by simp
  have t8: "take 8 (drop 4 ?f) = y @ mo @ dd" using assms(1-3) by simp
  have d12: "drop 12 ?f = ''_'' @ ns @ ''.mp4'' @ rest" using assms(1-3) by simp
  have d13: "drop 1 (drop 12 ?f) = ns @ CHR ''.'' # (''mp4'' @ rest)" unfolding d12 by simp
  have tw: "takeWhile is_digit (drop 1 (drop 12 ?f)) = ns"
    unfolding d13 by (rule takeWhile_digits(1) [OF assms(8) not_digit_stop])
  have dw: "dropWhile is_digit (drop 1 (drop 12 ?f)) = ''.mp4'' @ rest"
    unfolding d13 by (simp add: takeWhile_digits(2) [OF assms(8) not_digit_stop])
  have sw: "startswith ''VID_'' ?f" by (simp add: startswith_def)
  have su: "startswith ''_'' (drop 12 ?f)" unfolding d12 by (simp add: startswith_def)
  have sm: "startswith ''.mp4'' (dropWhile is_digit (drop 1 (drop 12 ?f)))"
    unfolding dw by (simp add: startswith_def)
  show ?thesis
    unfolding match_video_def Let_def
    using sw su sm tw t8 assms by simp
qed

lemma split_4_2_2: "xs = take 4 xs @ take 2 (drop 4 xs) @ drop 6 xs"
proof -
  have "take 2 (drop 4 xs) @ drop 2 (drop 4 xs) = drop 4 xs" by (rule append_take_drop_id)
  then have "take 2 (drop 4 xs) @ drop 6 xs = drop 4 xs" by simp
  then have "take 4 xs @ take 2 (drop 4 xs) @ drop 6 xs = take 4 xs @ drop 4 xs" by simp
  then show ?thesis by simp
qed

lemma split_at_12: "drop 4 xs = take 8 (drop 4 xs) @ drop 12 xs"
proof -
  have "take 8 (drop 4 xs) @ drop 8 (drop 4 xs) = drop 4 xs" by (rule append_take_drop_id)
  then show ?thesis by simp
qed

lemma if_SomeD: "(if c then Some a else None) = Some d \<Longrightarrow> c \<and> d = a"
  by (simp split: if_splits)

lemma match_video_elim:
  assumes "match_video f = Some d"
  shows "\<exists>y mo dd ns rest. f = ''VID_'' @ y @ mo @ dd @ ''_'' @ ns @ ''.mp4'' @ rest
           \<and> length y = 4 \<and> length mo = 2 \<and> length dd = 2
           \<and> all_digits y \<and> all_digits mo \<and> all_digits dd \<and> ns \<noteq> [] \<and> all_digits ns
           \<and> d = \<lparr>year = y, month = mo, day = dd\<rparr>"
proof -
  define ds where "ds = take 8 (drop 4 f)"
  define r where "r = drop 12 f"
  define ns where "ns = takeWhile is_digit (drop 1 r)"
  define r' where "r' = dropWhile is_digit (drop 1 r)"
  note m = if_SomeD [OF assms [unfolded match_video_def Let_def]]
  have c: "startswith ''VID_'' f \<and> length ds = 8 \<and> all_digits ds
            \<and> startswith ''_'' r \<and> ns \<noteq> [] \<and> startswith ''.mp4'' r'"
    unfolding ds_def r_def ns_def r'_def using m by blast
  have l4: "length ''VID_'' = 4" "length ''.mp4'' = 4" and l1: "length ''_'' = 1" by simp_all
  have sw: "take 4 f = ''VID_''" using c unfolding startswith_def l4 by blast
  have len: "length ds = 8" and dig: "all_digits ds" and ne: "ns \<noteq> []" using c by blast+
  have su: "take 1 r = ''_''" using c unfolding startswith_def l1 by blast
  have sm: "take 4 r' = ''.mp4''" using c unfolding startswith_def l4 by blast
  have d: "d = \<lparr>year = take 4 ds, month = take 2 (drop 4 ds), day = drop 6 ds\<rparr>"
    unfolding ds_def using m by blast
  have e5: "r' = ''.mp4'' @ drop 4 r'"
    using append_take_drop_id [of 4 r'] unfolding sm by simp
  have e4: "drop 1 r = ns @ r'"
    unfolding ns_def r'_def by simp
  have e3: "r = ''_'' @ drop 1 r"
    using append_take_drop_id [of 1 r] unfolding su by simp
  have e2: "drop 4 f = ds @ r"
    unfolding ds_def r_def by (rule split_at_12)
  have e1: "f = ''VID_'' @ drop 4 f"
    using append_take_drop_id [of 4 f] unfolding sw by simp
  have e0: "ds = take 4 ds @ take 2 (drop 4 ds) @ drop 6 ds"
    by (rule split_4_2_2)
  have "f = ''VID_'' @ ds @ ''_'' @ ns @ ''.mp4'' @ drop 4 r'"
    by (subst e1, subst e2, subst e3, subst e4, subst e5) simp
  then have whole: "f = ''VID_'' @ take 4 ds @ take 2 (drop 4 ds) @ drop 6 ds @ ''_'' @ ns @ ''.mp4'' @ drop 4 r'"
    by (subst (asm) e0) simp
  have lens: "length (take 4 ds) = 4" "length (take 2 (drop 4 ds)) = 2" "length (drop 6 ds) = 2"
    using len by simp_all
  have "all_digits (take 4 ds @ take 2 (drop 4 ds) @ drop 6 ds)"
    using dig e0 by simp
  then have digs: "all_digits (take 4 ds)" "all_digits (take 2 (drop 4 ds))" "all_digits (drop 6 ds)"
    by simp_all
  have dn: "all_digits ns"
    unfolding ns_def all_digits_def list_all_iff by (blast dest: set_takeWhileD)
  show ?thesis using whole lens digs ne dn d by blast
qed


definition video_shape :: "string \<Rightarrow> bool" where
  \<comment> \<open>Follows the specification's words, not the code: the shape
      \<^verbatim>\<open>VID_<8-digit-date>_<numeric-suffix>.<ext>\<close>, the extension being what follows the
      last full stop.\<close>
  "video_shape filename =
     (let ds = take 8 (drop 4 filename);
          r = drop 12 filename;
          suffix = takeWhile is_digit (drop 1 r);
          r' = dropWhile is_digit (drop 1 r);
          ext = drop 1 r'
      in startswith ''VID_'' filename \<and> length ds = 8 \<and> all_digits ds
         \<and> startswith ''_'' r \<and> suffix \<noteq> []
         \<and> startswith ''.'' r' \<and> ext \<noteq> [] \<and> CHR ''.'' \<notin> set ext)"

lemma drop_take2: "drop n xs = take 2 (drop n xs) @ drop (n + 2) xs"
proof -
  have "take 2 (drop n xs) @ drop 2 (drop n xs) = drop n xs" by (rule append_take_drop_id)
  then show ?thesis by (simp add: add.commute)
qed

lemma drop_nth: "n < length xs \<Longrightarrow> drop n xs = xs ! n # drop (n + 1) xs"
  by (simp add: Cons_nth_drop_Suc)

lemma date_string_split:
  assumes "19 \<le> length s"
  shows "s = take 4 s @ [s ! 4] @ take 2 (drop 5 s) @ [s ! 7] @ take 2 (drop 8 s) @ [s ! 10]
             @ take 2 (drop 11 s) @ [s ! 13] @ take 2 (drop 14 s) @ [s ! 16]
             @ take 2 (drop 17 s) @ drop 19 s"
proof -
  have e17: "drop 17 s = take 2 (drop 17 s) @ drop 19 s" using drop_take2 [of 17 s] by simp
  have e16: "drop 16 s = s ! 16 # drop 17 s" using drop_nth [of 16 s] assms by simp
  have e14: "drop 14 s = take 2 (drop 14 s) @ drop 16 s" using drop_take2 [of 14 s] by simp
  have e13: "drop 13 s = s ! 13 # drop 14 s" using drop_nth [of 13 s] assms by simp
  have e11: "drop 11 s = take 2 (drop 11 s) @ drop 13 s" using drop_take2 [of 11 s] by simp
  have e10: "drop 10 s = s ! 10 # drop 11 s" using drop_nth [of 10 s] assms by simp
  have e8: "drop 8 s = take 2 (drop 8 s) @ drop 10 s" using drop_take2 [of 8 s] by simp
  have e7: "drop 7 s = s ! 7 # drop 8 s" using drop_nth [of 7 s] assms by simp
  have e5: "drop 5 s = take 2 (drop 5 s) @ drop 7 s" using drop_take2 [of 5 s] by simp
  have e4: "drop 4 s = s ! 4 # drop 5 s" using drop_nth [of 4 s] assms by simp
  have e0: "s = take 4 s @ drop 4 s" by simp
  show ?thesis
    by (subst e0, subst e4, subst e5, subst e7, subst e8, subst e10, subst e11, subst e13,
        subst e14, subst e16, subst e17) simp
qed


lemma dateregex_match_elim:
  assumes "dateregex_match s = Some d"
  shows "\<exists>y mo dd w hh mi ss nl.
           s = y @ '':'' @ mo @ '':'' @ dd @ [w] @ hh @ '':'' @ mi @ '':'' @ ss @ nl
           \<and> length y = 4 \<and> length mo = 2 \<and> length dd = 2
           \<and> length hh = 2 \<and> length mi = 2 \<and> length ss = 2
           \<and> all_digits y \<and> all_digits mo \<and> all_digits dd
           \<and> all_digits hh \<and> all_digits mi \<and> all_digits ss
           \<and> is_space w \<and> (nl = [] \<or> nl = [CHR 0x0A])
           \<and> d = \<lparr>year = y, month = mo, day = dd\<rparr>"
proof -
  note m = if_SomeD [OF assms [unfolded dateregex_match_def]]
  from m have len: "length s = 19 \<or> (length s = 20 \<and> s ! 19 = CHR 0x0A)" by blast
  then have ge: "19 \<le> length s" by auto
  have nl: "drop 19 s = [] \<or> drop 19 s = [CHR 0x0A]"
  proof (cases "length s = 19")
    case True
    then show ?thesis by simp
  next
    case False
    with len have l: "length s = 20" and c: "s ! 19 = CHR 0x0A" by auto
    have "drop 19 s = s ! 19 # drop 20 s" using drop_nth [of 19 s] l by simp
    then show ?thesis using l c by simp
  qed
  from m have colons: "s ! 4 = CHR '':''" "s ! 7 = CHR '':''" "s ! 13 = CHR '':''" "s ! 16 = CHR '':''"
    and sp: "is_space (s ! 10)"
    and digs: "all_digits (take 4 s)" "all_digits (take 2 (drop 5 s))" "all_digits (take 2 (drop 8 s))"
       "all_digits (take 2 (drop 11 s))" "all_digits (take 2 (drop 14 s))" "all_digits (take 2 (drop 17 s))"
    and d: "d = \<lparr>year = take 4 s, month = take 2 (drop 5 s), day = take 2 (drop 8 s)\<rparr>"
    by blast+
  have lens: "length (take 4 s) = 4" "length (take 2 (drop 5 s)) = 2" "length (take 2 (drop 8 s)) = 2"
    "length (take 2 (drop 11 s)) = 2" "length (take 2 (drop 14 s)) = 2" "length (take 2 (drop 17 s)) = 2"
    using ge by simp_all
  have whole: "s = take 4 s @ '':'' @ take 2 (drop 5 s) @ '':'' @ take 2 (drop 8 s) @ [s ! 10]
             @ take 2 (drop 11 s) @ '':'' @ take 2 (drop 14 s) @ '':''
             @ take 2 (drop 17 s) @ drop 19 s"
    using date_string_split [OF ge] unfolding colons by simp
  show ?thesis
    using whole lens digs sp nl d by blast
qed

lemma dateregex_match_intro:
  assumes "length y = 4" "length mo = 2" "length dd = 2" "length hh = 2" "length mi = 2" "length ss = 2"
    and "all_digits y" "all_digits mo" "all_digits dd" "all_digits hh" "all_digits mi" "all_digits ss"
    and "is_space w" and "nl = [] \<or> nl = [CHR 0x0A]"
  shows "dateregex_match (y @ '':'' @ mo @ '':'' @ dd @ [w] @ hh @ '':'' @ mi @ '':'' @ ss @ nl)
         = Some \<lparr>year = y, month = mo, day = dd\<rparr>"
  using assms by (auto simp: dateregex_match_def nth_append)


definition date_shape :: "string \<Rightarrow> bool" where
  \<comment> \<open>Follows the specification's words, not the code: the exact pattern
      \<^verbatim>\<open>YYYY:MM:DD HH:MM:SS\<close>, digits separated by colons and one space.\<close>
  "date_shape s =
     (length s = 19
      \<and> all_digits (take 4 s) \<and> s ! 4 = CHR '':''
      \<and> all_digits (take 2 (drop 5 s)) \<and> s ! 7 = CHR '':''
      \<and> all_digits (take 2 (drop 8 s)) \<and> s ! 10 = CHR '' ''
      \<and> all_digits (take 2 (drop 11 s)) \<and> s ! 13 = CHR '':''
      \<and> all_digits (take 2 (drop 14 s)) \<and> s ! 16 = CHR '':''
      \<and> all_digits (take 2 (drop 17 s)))"

definition with_tag :: "string \<Rightarrow> env" where
  \<comment> \<open>the platform \<open>posix\<close>, with every file carrying the given capture-date tag\<close>
  "with_tag v = posix\<lparr>exif_date := (\<lambda>bytes. Some v)\<rparr>"

lemma copyfile_ignores_tags:
  "copyfile (e\<lparr>exif_date := x\<rparr>) src f lib lp st = copyfile e src f lib lp st"
  by (simp add: copyfile_def validatedirectory_def os_rename_def Let_def
        cong: option.case_cong loop_exit.case_cong if_cong prod.case_cong)

lemma hashfile_ignores_tags:
  "hashfile (e\<lparr>exif_date := x\<rparr>) p st = hashfile e p st"
  by (simp add: hashfile_def Let_def
        cong: option.case_cong node.case_cong bool.case_cong if_cong)

lemma copyvideo_ignores_tags:
  "copyvideo (e\<lparr>exif_date := x\<rparr>) src f lib st = copyvideo e src f lib st"
  by (simp add: copyvideo_def copyfile_ignores_tags Let_def cong: option.case_cong)

definition holiday :: state where
  \<comment> \<open>a video whose name carries no date\<close>
  "holiday = initial [(''src/holiday.mp4'', File ''w'' 0 True)]"

definition holiday_jpg :: state where
  \<comment> \<open>the same bytes under an image's name\<close>
  "holiday_jpg = initial [(''src/holiday.jpg'', File ''w'' 0 True)]"

definition xmas_dir :: path where
  "xmas_dir = ''lib/2022'' @ [CHR 0x5C] @ ''12'' @ [CHR 0x5C] @ ''25''"

lemma str_nat_1: "str_nat (Suc 0) = ''1''"
  by code_simp

lemma copyloop_break_free:
  "copyloop s fsys src f lib lp i = Break target j \<Longrightarrow> \<not> path_exists fsys target"
proof (induction s fsys src f lib lp i rule: copyloop.induct)
  case (1 s fsys absolutepath filename library librarypath i)
  show ?case
  proof (cases "path_exists fsys librarypath")
    case False
    then show ?thesis using "1.prems" by (subst (asm) copyloop.simps) simp
  next
    case True
    show ?thesis
    proof (cases "comparefiles fsys absolutepath librarypath")
      case (Inl err)
      then show ?thesis using "1.prems" True by (subst (asm) copyloop.simps) simp
    next
      case (Inr b)
      show ?thesis
      proof (cases b)
        case True
        then show ?thesis using "1.prems" Inr \<open>path_exists fsys librarypath\<close>
          by (subst (asm) copyloop.simps) simp
      next
        case False
        show ?thesis
        proof (cases "newfilename filename i")
          case None
          then show ?thesis using "1.prems" Inr False \<open>path_exists fsys librarypath\<close>
            by (subst (asm) copyloop.simps) simp
        next
          case (Some n)
          have "copyloop s fsys absolutepath filename library (join s library n) (i + 1) = Break target j"
            using "1.prems" Inr False Some \<open>path_exists fsys librarypath\<close>
            by (subst (asm) copyloop.simps) simp
          moreover have "b = False" using False by simp
          ultimately show ?thesis
            using "1.IH" [of b n] \<open>path_exists fsys librarypath\<close> Inr Some by blast
        qed
      qed
    qed
  qed
qed

lemma validatedirectory_fs:
  assumes "validatedirectory e lib st = (ok, st1)"
  shows "\<forall>q. path_exists (fs st) q \<longrightarrow> map_of (fs st1) q = map_of (fs st) q"
  using assms by (auto simp: validatedirectory_def path_exists_def update_conv' split: if_splits)

lemma copyfile_fs:
  assumes c: "copyfile e src f lib lp st = (out, st')" and s: "path_exists (fs st) src"
  shows "(\<forall>q. q \<noteq> src \<and> path_exists (fs st) q \<longrightarrow> map_of (fs st') q = map_of (fs st) q)
       \<and> (\<not> is_moved out \<longrightarrow> map_of (fs st') src = map_of (fs st) src)
       \<and> (\<forall>p. out = Moved p \<or> out = RenamedMoved p \<longrightarrow>
             \<not> path_exists (fs st) p \<and> map_of (fs st') p = map_of (fs st) src
             \<and> map_of (fs st') src = None)"
proof -
  obtain ok st1 where v: "validatedirectory e lib st = (ok, st1)"
    by (cases "validatedirectory e lib st")
  note keep = validatedirectory_fs [OF v]
  have s1: "path_exists (fs st1) src" and src1: "map_of (fs st1) src = map_of (fs st) src"
    using keep s by (simp_all add: path_exists_def)
  have ex1: "path_exists (fs st1) q" if "path_exists (fs st) q" for q
    using keep that by (simp add: path_exists_def)
  show ?thesis
  proof (cases ok)
    case False
    then have "out = DirError" "st' = st1" using c v by (simp_all add: copyfile_def)
    then show ?thesis using keep s by simp
  next
    case True
    show ?thesis
    proof (cases "copyloop (sep e) (fs st1) src f lib (join (sep e) lib f) 1")
      case Return
      then have "out = SkippedIdentical" "st' = st1" using c v True by (simp_all add: copyfile_def)
      then show ?thesis using keep s by simp
    next
      case (Raise err)
      then have "out = Raised err" "st' = st1" using c v True by (simp_all add: copyfile_def)
      then show ?thesis using keep s by simp
    next
      case (Break target i)
      then have free: "\<not> path_exists (fs st1) target" by (rule copyloop_break_free)
      have ts: "target \<noteq> src" using free s1 by auto
      have free0: "\<not> path_exists (fs st) target" using free ex1 by blast
      show ?thesis
      proof (cases "os_rename e (fs st1) src target")
        case None
        then have "out = MoveError" "st' = st1" using c v True Break by (simp_all add: copyfile_def)
        then show ?thesis using keep s by simp
      next
        case (Some fsys)
        obtain n where n: "map_of (fs st1) src = Some n"
          and fsys: "fsys = AList.update target n (AList.delete src (fs st1))"
          using Some by (auto simp: os_rename_def split: option.splits if_splits)
        have o: "out = (if i = 1 then Moved target else RenamedMoved target)"
          and st': "fs st' = fsys"
          using c v True Break Some by (auto simp: copyfile_def)
        have other: "map_of (fs st') q = map_of (fs st) q" if "q \<noteq> src" "path_exists (fs st) q" for q
        proof -
          have "q \<noteq> target" using that(2) free0 by auto
          then show ?thesis using that keep by (simp add: st' fsys update_conv' delete_conv')
        qed
        have tgt: "map_of (fs st') target = map_of (fs st) src"
          using n src1 by (simp add: st' fsys update_conv')
        have gone: "map_of (fs st') src = None"
          using ts by (simp add: st' fsys update_conv' delete_conv')
        show ?thesis using o other tgt gone free0 by (auto split: if_splits)
      qed
    qed
  qed
qed


lemma item_fs:
  assumes i: "importfolder_item e d lib item st = (out, st')"
  shows "(\<forall>q. q \<noteq> join (sep e) d item \<and> path_exists (fs st) q \<longrightarrow> map_of (fs st') q = map_of (fs st) q)
       \<and> (\<not> is_moved out \<longrightarrow> map_of (fs st') (join (sep e) d item) = map_of (fs st) (join (sep e) d item))
       \<and> (\<forall>p. out = Moved p \<or> out = RenamedMoved p \<longrightarrow>
             \<not> path_exists (fs st) p
             \<and> map_of (fs st') p = map_of (fs st) (join (sep e) d item)
             \<and> map_of (fs st') (join (sep e) d item) = None)"
proof (cases "\<exists>bytes m. map_of (fs st) (join (sep e) d item) = Some (File bytes m True)")
  case False
  then have "\<forall>bytes m. map_of (fs st) (join (sep e) d item) \<noteq> Some (File bytes m True)"
    by blast
  from item_not_readable [OF this, of lib] have "st' = st \<and> \<not> is_moved out"
    using i by (auto split: if_splits)
  then show ?thesis by auto
next
  case True
  then obtain bytes m where f: "map_of (fs st) (join (sep e) d item) = Some (File bytes m True)"
    by blast
  let ?st1 = "st\<lparr>hashes := AList.update (fileid_of e bytes) (join (sep e) d item) (hashes st)\<rparr>"
  show ?thesis
  proof (cases "registered st (fileid_of e bytes)")
    case True
    then have "st' = st \<and> \<not> is_moved out" using i by (auto simp: item_readable [OF f])
    then show ?thesis by auto
  next
    case False
    show ?thesis
    proof (cases "resolve_date e item bytes")
      case None
      then have "st' = ?st1 \<and> \<not> is_moved out"
        using i False by (auto simp: item_readable [OF f] Let_def)
      then show ?thesis by auto
    next
      case (Some md)
      have c: "copyfile e (join (sep e) d item) item (join (sep e) lib (librarypath_of md))
                  (librarypath_of md) ?st1 = (out, st')"
        using i False Some by (simp add: item_readable [OF f] Let_def)
      have s: "path_exists (fs ?st1) (join (sep e) d item)"
        using f by (simp add: path_exists_def)
      from copyfile_fs [OF c s] show ?thesis by simp
    qed
  qed
qed


definition readonly_library :: env where
  \<comment> \<open>the platform \<open>posix\<close>, with no directory creation permitted\<close>
  "readonly_library = posix\<lparr>makedirs_ok := (\<lambda>p. False)\<rparr>"

definition crowded :: state where
  \<comment> \<open>an image whose name is taken in the library, also with the suffix 1, by other files\<close>
  "crowded = initial [(''src/a.jpg'', File ''aa'' 5 True), (xmas_dir, Dir),
                      (xmas_dir @ ''/a.jpg'', File ''bb'' 6 True),
                      (xmas_dir @ ''/a-1.jpg'', File ''cc'' 7 True)]"

lemma str_nat_2: "str_nat (Suc (Suc 0)) = ''2''"
  by code_simp

definition three_videos :: filesystem where
  \<comment> \<open>a video with a dated name, the same bytes under another name, and another video
      whose name has no date\<close>
  "three_videos = [(''src/VID_20230401_001.mp4'', File ''v'' 0 True),
                   (''src/copy.mp4'', File ''v'' 1 True),
                   (''src/holiday.mp4'', File ''ww'' 2 True)]"

definition dated_dir :: path where
  "dated_dir = ''lib/2023'' @ [CHR 0x5C] @ ''04'' @ [CHR 0x5C] @ ''01''"

lemma copyfile_not_duplicate: "fst (copyfile e src f lib lp st) \<noteq> DuplicateSkipped"
proof -
  obtain ok st1 where v: "validatedirectory e lib st = (ok, st1)"
    by (cases "validatedirectory e lib st")
  show ?thesis
    using v by (auto simp: copyfile_def split: loop_exit.splits option.splits if_splits)
qed















section \<open>The claims\<close>

text \<open>
  C2. The claim: the destination directory is the library root joined with year, month
  and day as nested subdirectories by a portable primitive, so that
  \<^verbatim>\<open>VID_20230401_001.mp4\<close> ends up at \<^verbatim>\<open><library>/2023/04/01/VID_20230401_001.mp4\<close> on
  any platform. The code writes the three components into one string with backslashes
  and joins that string to the library root. Where the separator is a slash, the video
  is moved into a single directory whose name contains two backslashes, and not to the
  path the claim gives.
\<close>

theorem copyvideo_backslash_on_posix:
  "copyvideo posix ''src/VID_20230401_001.mp4'' ''VID_20230401_001.mp4'' ''lib''
     (initial [(''src/VID_20230401_001.mp4'', File ''v'' 0 True)])
   = (Moved (''lib/2023'' @ [CHR 0x5C] @ ''04'' @ [CHR 0x5C] @ ''01/VID_20230401_001.mp4''),
      \<lparr>fs = [(''lib/2023'' @ [CHR 0x5C] @ ''04'' @ [CHR 0x5C] @ ''01'', Dir),
             (''lib/2023'' @ [CHR 0x5C] @ ''04'' @ [CHR 0x5C] @ ''01/VID_20230401_001.mp4'',
              File ''v'' 0 True)],
       hashes = [], copycount = 1\<rparr>)
   \<and> ''lib/2023'' @ [CHR 0x5C] @ ''04'' @ [CHR 0x5C] @ ''01/VID_20230401_001.mp4''
       \<noteq> ''lib/2023/04/01/VID_20230401_001.mp4''"
  by (simp add: copyvideo_def match_video_def startswith_def all_digits_def is_digit_def
     librarypath_of_def join_def endswith_def copyfile_def validatedirectory_def path_exists_def
     copyloop.simps os_rename_def posix_def initial_def)

text \<open>
  C1. A file whose identity key (digest of its bytes, paired with their number) is
  already in the registry under a path: \<^verbatim>\<open>hashfile\<close> answers False and changes nothing,
  the registry still names the earlier path, and the loop body goes on to the next item
  with the whole state (file system, registry, counter) as it was. A file with a key
  the registry does not have: \<^verbatim>\<open>hashfile\<close> answers True, the only change it makes is that
  the key now maps to this file's path, and the loop body routes the file onward: it is
  not skipped as a duplicate, its date is resolved and, if there is one, the file goes to
  \<^verbatim>\<open>copyfile\<close> with its dated directory. Consequently, once a readable file has been
  processed, every file with the same bytes that any later step of the run meets is
  skipped as a duplicate and the state is left as it was.
\<close>

theorem register_duplicate_or_unique:
  assumes "map_of (fs st) (join (sep e) directory item) = Some (File bytes m True)"
  shows
    "(\<forall>previous. map_of (hashes st) (fileid_of e bytes) = Some previous \<and> previous \<noteq> [] \<longrightarrow>
        hashfile e (join (sep e) directory item) st = Inr (False, st)
        \<and> importfolder_item e directory library item st = (DuplicateSkipped, st))
     \<and> (map_of (hashes st) (fileid_of e bytes) = None \<longrightarrow>
        hashfile e (join (sep e) directory item) st
          = Inr (True, st\<lparr>hashes := AList.update (fileid_of e bytes)
                                      (join (sep e) directory item) (hashes st)\<rparr>)
        \<and> map_of (AList.update (fileid_of e bytes) (join (sep e) directory item) (hashes st))
             = (map_of (hashes st))(fileid_of e bytes \<mapsto> join (sep e) directory item)
        \<and> importfolder_item e directory library item st
          = (case resolve_date e item bytes of
               None \<Rightarrow>
                 (MissingSkipped,
                  st\<lparr>hashes := AList.update (fileid_of e bytes)
                                 (join (sep e) directory item) (hashes st)\<rparr>)
             | Some metadata \<Rightarrow>
                 copyfile e (join (sep e) directory item) item
                   (join (sep e) library (librarypath_of metadata)) (librarypath_of metadata)
                   (st\<lparr>hashes := AList.update (fileid_of e bytes)
                                  (join (sep e) directory item) (hashes st)\<rparr>))
        \<and> fst (importfolder_item e directory library item st) \<noteq> DuplicateSkipped)
     \<and> (\<forall>out st1 calls outs st2 directory' item' m'.
          item \<noteq> []
          \<and> importfolder_item e directory library item st = (out, st1)
          \<and> main_imports e library calls st1 = (outs, st2)
          \<and> map_of (fs st2) (join (sep e) directory' item') = Some (File bytes m' True)
          \<longrightarrow> importfolder_item e directory' library item' st2 = (DuplicateSkipped, st2))"
proof (intro conjI allI impI)
  fix previous
  assume "map_of (hashes st) (fileid_of e bytes) = Some previous \<and> previous \<noteq> []"
  then have r: "registered st (fileid_of e bytes)" by (simp add: registered_def)
  show "hashfile e (join (sep e) directory item) st = Inr (False, st)"
    using r by (simp add: hashfile_readable [OF assms])
  show "importfolder_item e directory library item st = (DuplicateSkipped, st)"
    using r by (simp add: item_readable [OF assms])
next
  assume "map_of (hashes st) (fileid_of e bytes) = None"
  then have "\<not> registered st (fileid_of e bytes)" by (simp add: registered_def)
  then show "hashfile e (join (sep e) directory item) st
          = Inr (True, st\<lparr>hashes := AList.update (fileid_of e bytes)
                                      (join (sep e) directory item) (hashes st)\<rparr>)"
    by (simp add: hashfile_readable [OF assms])
next
  show "map_of (AList.update (fileid_of e bytes) (join (sep e) directory item) (hashes st))
             = (map_of (hashes st))(fileid_of e bytes \<mapsto> join (sep e) directory item)"
    by (rule update_conv')
next
  assume "map_of (hashes st) (fileid_of e bytes) = None"
  then have n: "\<not> registered st (fileid_of e bytes)" by (simp add: registered_def)
  then show routed: "importfolder_item e directory library item st
          = (case resolve_date e item bytes of
               None \<Rightarrow>
                 (MissingSkipped,
                  st\<lparr>hashes := AList.update (fileid_of e bytes)
                                 (join (sep e) directory item) (hashes st)\<rparr>)
             | Some metadata \<Rightarrow>
                 copyfile e (join (sep e) directory item) item
                   (join (sep e) library (librarypath_of metadata)) (librarypath_of metadata)
                   (st\<lparr>hashes := AList.update (fileid_of e bytes)
                                  (join (sep e) directory item) (hashes st)\<rparr>))"
    by (simp add: item_readable [OF assms] Let_def)
  show "fst (importfolder_item e directory library item st) \<noteq> DuplicateSkipped"
    unfolding routed by (simp add: copyfile_not_duplicate split: option.splits)
next
  fix out st1 calls outs st2 directory' item' m'
  assume a: "item \<noteq> []
          \<and> importfolder_item e directory library item st = (out, st1)
          \<and> main_imports e library calls st1 = (outs, st2)
          \<and> map_of (fs st2) (join (sep e) directory' item') = Some (File bytes m' True)"
  have "registered st1 (fileid_of e bytes)"
    using assms a by (blast intro: item_registers)
  then have "registered st2 (fileid_of e bytes)"
    using a by (blast intro: main_imports_registered_mono)
  then show "importfolder_item e directory' library item' st2 = (DuplicateSkipped, st2)"
    using a item_readable [of st2 e directory' item' bytes m' library] by simp
qed


definition two_copies :: state where
  \<comment> \<open>a video with a dated name and the same bytes again under another name\<close>
  "two_copies = initial [(''src/VID_20230401_001.mp4'', File ''v'' 0 True),
                         (''src/copy.mp4'', File ''v'' 5 True)]"

definition first_moved :: state where
  \<comment> \<open>\<open>two_copies\<close> after its first file has been registered and moved\<close>
  "first_moved =
     \<lparr>fs = [(''src/copy.mp4'', File ''v'' 5 True), (dated_dir, Dir),
             (dated_dir @ ''/VID_20230401_001.mp4'', File ''v'' 0 True)],
      hashes = [((''v'', 1), ''src/VID_20230401_001.mp4'')], copycount = 1\<rparr>"

theorem register_duplicate_or_unique_witness:
  "hashfile posix ''src/VID_20230401_001.mp4'' two_copies
     = Inr (True, two_copies\<lparr>hashes := [((''v'', 1), ''src/VID_20230401_001.mp4'')]\<rparr>)
   \<and> importfolder_item posix ''src'' ''lib'' ''VID_20230401_001.mp4'' two_copies
     = (Moved (dated_dir @ ''/VID_20230401_001.mp4''), first_moved)
   \<and> hashfile posix ''src/copy.mp4'' first_moved = Inr (False, first_moved)
   \<and> importfolder_item posix ''src'' ''lib'' ''copy.mp4'' first_moved
     = (DuplicateSkipped, first_moved)"
proof -
  let ?st1 = "two_copies\<lparr>hashes := [((''v'', 1), ''src/VID_20230401_001.mp4'')]\<rparr>"
  have j: "join (sep posix) ''src'' ''VID_20230401_001.mp4'' = ''src/VID_20230401_001.mp4''"
      "join (sep posix) ''src'' ''copy.mp4'' = ''src/copy.mp4''"
    by (simp_all add: join_def posix_def startswith_def endswith_def)
  have f: "map_of (fs two_copies) (join (sep posix) ''src'' ''VID_20230401_001.mp4'')
      = Some (File ''v'' 0 True)"
    by (simp add: j two_copies_def initial_def)
  have fresh: "map_of (hashes two_copies) (fileid_of posix ''v'') = None"
    by (simp add: two_copies_def initial_def)
  have upd: "AList.update (fileid_of posix ''v'') ''src/VID_20230401_001.mp4'' (hashes two_copies)
      = [((''v'', 1), ''src/VID_20230401_001.mp4'')]"
    by (simp add: fileid_of_def posix_def two_copies_def initial_def)
  have rd: "resolve_date posix ''VID_20230401_001.mp4'' ''v''
      = Some \<lparr>year = ''2023'', month = ''04'', day = ''01''\<rparr>"
    by (simp add: resolve_date_def endswith_def match_video_def startswith_def all_digits_def
          is_digit_def)
  note t = register_duplicate_or_unique [OF f, of "''lib''", unfolded j upd rd]
  have one: "hashfile posix ''src/VID_20230401_001.mp4'' two_copies = Inr (True, ?st1)"
    using t fresh by simp
  have "importfolder_item posix ''src'' ''lib'' ''VID_20230401_001.mp4'' two_copies
      = copyfile posix ''src/VID_20230401_001.mp4'' ''VID_20230401_001.mp4''
          (join (sep posix) ''lib'' (librarypath_of \<lparr>year = ''2023'', month = ''04'', day = ''01''\<rparr>))
          (librarypath_of \<lparr>year = ''2023'', month = ''04'', day = ''01''\<rparr>) ?st1"
    using t fresh by simp
  also have "\<dots> = (Moved (dated_dir @ ''/VID_20230401_001.mp4''), first_moved)"
    by (simp add: run_defs posix_def two_copies_def first_moved_def dated_dir_def)
  finally have two: "importfolder_item posix ''src'' ''lib'' ''VID_20230401_001.mp4'' two_copies
      = (Moved (dated_dir @ ''/VID_20230401_001.mp4''), first_moved)" .
  have m: "main_imports posix ''lib'' [] first_moved = ([], first_moved)"
    by simp
  have b: "map_of (fs first_moved) (join (sep posix) ''src'' ''copy.mp4'') = Some (File ''v'' 5 True)"
    by (simp add: j first_moved_def)
  have three: "importfolder_item posix ''src'' ''lib'' ''copy.mp4'' first_moved
      = (DuplicateSkipped, first_moved)"
    using t [THEN conjunct2, THEN conjunct2, rule_format,
        of "Moved (dated_dir @ ''/VID_20230401_001.mp4'')" first_moved "[]" "[]" first_moved
           "''src''" "''copy.mp4''" 5]
      two m b by simp
  have prev: "map_of (hashes first_moved) (fileid_of posix ''v'') = Some ''src/VID_20230401_001.mp4''"
    by (simp add: first_moved_def fileid_of_def posix_def)
  have four: "hashfile posix ''src/copy.mp4'' first_moved = Inr (False, first_moved)"
    using register_duplicate_or_unique [OF b, of "''lib''", unfolded j] prev by simp
  show ?thesis using one two three four by simp
qed

text \<open>
  C10. The key of a file is put into the registry before its date is looked at. A
  readable file with a new key whose date cannot be resolved is left where it is (the
  file system and the counter do not change) but its key stays registered under its
  path; whatever the run does afterwards, every file with the same bytes that it meets
  is skipped as a duplicate with the state unchanged, so it is never moved, whatever
  its own name is.
\<close>

theorem unresolved_date_occupies_registry:
  assumes "map_of (fs st) (join (sep e) directory item) = Some (File bytes m True)"
    and "map_of (hashes st) (fileid_of e bytes) = None"
    and "resolve_date e item bytes = None"
    and "item \<noteq> []"
  shows
    "importfolder_item e directory library item st
       = (MissingSkipped,
          st\<lparr>hashes := AList.update (fileid_of e bytes) (join (sep e) directory item) (hashes st)\<rparr>)
     \<and> (\<forall>calls outs st2 directory' item' m'.
          main_imports e library calls
            (st\<lparr>hashes := AList.update (fileid_of e bytes) (join (sep e) directory item) (hashes st)\<rparr>)
            = (outs, st2)
          \<and> map_of (fs st2) (join (sep e) directory' item') = Some (File bytes m' True)
          \<longrightarrow> importfolder_item e directory' library item' st2 = (DuplicateSkipped, st2))"
proof -
  let ?st1 = "st\<lparr>hashes := AList.update (fileid_of e bytes) (join (sep e) directory item) (hashes st)\<rparr>"
  have n: "\<not> registered st (fileid_of e bytes)"
    using assms(2) by (simp add: registered_def)
  have first: "importfolder_item e directory library item st = (MissingSkipped, ?st1)"
    using n assms(3) by (simp add: item_readable [OF assms(1)])
  have r1: "registered ?st1 (fileid_of e bytes)"
    using assms(1) assms(4) first by (rule item_registers)
  have later: "importfolder_item e directory' library item' st2 = (DuplicateSkipped, st2)"
    if "main_imports e library calls ?st1 = (outs, st2)"
      and "map_of (fs st2) (join (sep e) directory' item') = Some (File bytes m' True)"
    for calls outs st2 directory' item' m'
  proof -
    have "registered st2 (fileid_of e bytes)"
      using r1 that(1) by (rule main_imports_registered_mono)
    then show ?thesis by (simp add: item_readable [OF that(2)])
  qed
  show ?thesis using first later by blast
qed

definition renamed_copy :: state where
  \<comment> \<open>a video under a name that carries no date, and the same bytes again under a name
      that does\<close>
  "renamed_copy = initial [(''src/holiday.mp4'', File ''v'' 0 True),
                           (''src/VID_20230401_001.mp4'', File ''v'' 3 True)]"

theorem unresolved_date_occupies_registry_witness:
  "importfolder_item posix ''src'' ''lib'' ''holiday.mp4'' renamed_copy
     = (MissingSkipped, renamed_copy\<lparr>hashes := [((''v'', 1), ''src/holiday.mp4'')]\<rparr>)
   \<and> importfolder_item posix ''src'' ''lib'' ''VID_20230401_001.mp4''
        (renamed_copy\<lparr>hashes := [((''v'', 1), ''src/holiday.mp4'')]\<rparr>)
     = (DuplicateSkipped, renamed_copy\<lparr>hashes := [((''v'', 1), ''src/holiday.mp4'')]\<rparr>)
   \<and> match_video ''VID_20230401_001.mp4'' = Some \<lparr>year = ''2023'', month = ''04'', day = ''01''\<rparr>"
proof -
  let ?st1 = "renamed_copy\<lparr>hashes := [((''v'', 1), ''src/holiday.mp4'')]\<rparr>"
  have j: "join (sep posix) ''src'' ''holiday.mp4'' = ''src/holiday.mp4''"
      "join (sep posix) ''src'' ''VID_20230401_001.mp4'' = ''src/VID_20230401_001.mp4''"
    by (simp_all add: join_def posix_def startswith_def endswith_def)
  have f: "map_of (fs renamed_copy) (join (sep posix) ''src'' ''holiday.mp4'') = Some (File ''v'' 0 True)"
    by (simp add: j renamed_copy_def initial_def)
  have fresh: "map_of (hashes renamed_copy) (fileid_of posix ''v'') = None"
    by (simp add: renamed_copy_def initial_def)
  have nodate: "resolve_date posix ''holiday.mp4'' ''v'' = None"
    by (simp add: resolve_date_def endswith_def match_video_def startswith_def)
  have upd: "renamed_copy\<lparr>hashes := AList.update (fileid_of posix ''v'')
               (join (sep posix) ''src'' ''holiday.mp4'') (hashes renamed_copy)\<rparr> = ?st1"
    by (simp add: j) (simp add: posix_def fileid_of_def renamed_copy_def initial_def)
  note t = unresolved_date_occupies_registry [OF f fresh nodate, of "''lib''", unfolded upd]
  have m: "main_imports posix ''lib'' [] ?st1 = ([], ?st1)"
    by simp
  have b: "map_of (fs ?st1) (join (sep posix) ''src'' ''VID_20230401_001.mp4'') = Some (File ''v'' 3 True)"
    by (simp add: j renamed_copy_def initial_def)
  have one: "importfolder_item posix ''src'' ''lib'' ''holiday.mp4'' renamed_copy = (MissingSkipped, ?st1)"
    using t by simp
  have two: "importfolder_item posix ''src'' ''lib'' ''VID_20230401_001.mp4'' ?st1 = (DuplicateSkipped, ?st1)"
    using t [THEN conjunct2, rule_format, of "[]" "[]" ?st1 "''src''" "''VID_20230401_001.mp4''" 3]
      m b by simp
  have three: "match_video ''VID_20230401_001.mp4'' = Some \<lparr>year = ''2023'', month = ''04'', day = ''01''\<rparr>"
    by (simp add: match_video_def startswith_def all_digits_def is_digit_def)
  show ?thesis using one two three by simp
qed









text \<open>
  C5. The claim: the date is returned exactly when the file name has the shape
  \<^verbatim>\<open>VID_<8-digit-date>_<numeric-suffix>.<ext>\<close>. The code's pattern ends in \<^verbatim>\<open>\.mp4\<close> and is
  matched with \<^verbatim>\<open>re.match\<close>, which does not look at what follows. So a name of that
  shape with another extension gets no date, and a name that goes on after \<^verbatim>\<open>.mp4\<close>
  gets one.
\<close>

theorem video_shape_counterexample:
  "video_shape ''VID_20230401_001.mov''
   \<and> match_video ''VID_20230401_001.mov'' = None
   \<and> \<not> video_shape ''VID_20230401_001.mp4.mp4''
   \<and> match_video ''VID_20230401_001.mp4.mp4''
       = Some \<lparr>year = ''2023'', month = ''04'', day = ''01''\<rparr>"
  by (simp add: video_shape_def match_video_def startswith_def all_digits_def is_digit_def)

text \<open>
  C5, as amended. \<^verbatim>\<open>copyvideo\<close> resolves the date (the 8 digits split 4, 2, 2) exactly when
  the file name begins with \<^verbatim>\<open>VID_\<close>, 8 digits, an underscore, one or more digits and
  \<^verbatim>\<open>.mp4\<close>, whatever follows; the file then goes to \<^verbatim>\<open>copyfile\<close> with the dated directory.
  For every other name the file is skipped: the state (file system, registry, counter)
  is returned as it was.
\<close>

theorem copyvideo_resolves_date:
  "(match_video filename = Some d \<longleftrightarrow>
      (\<exists>y mo dd ns rest.
          filename = ''VID_'' @ y @ mo @ dd @ ''_'' @ ns @ ''.mp4'' @ rest
          \<and> length y = 4 \<and> length mo = 2 \<and> length dd = 2
          \<and> all_digits y \<and> all_digits mo \<and> all_digits dd \<and> ns \<noteq> [] \<and> all_digits ns
          \<and> d = \<lparr>year = y, month = mo, day = dd\<rparr>))
   \<and> (match_video filename = Some d \<longrightarrow>
        copyvideo e absolutepath filename library st
          = copyfile e absolutepath filename (join (sep e) library (librarypath_of d))
              (librarypath_of d) st)
   \<and> (match_video filename = None \<longrightarrow>
        copyvideo e absolutepath filename library st = (MissingSkipped, st))"
proof (intro conjI impI iffI)
  assume "match_video filename = Some d"
  then show "\<exists>y mo dd ns rest.
          filename = ''VID_'' @ y @ mo @ dd @ ''_'' @ ns @ ''.mp4'' @ rest
          \<and> length y = 4 \<and> length mo = 2 \<and> length dd = 2
          \<and> all_digits y \<and> all_digits mo \<and> all_digits dd \<and> ns \<noteq> [] \<and> all_digits ns
          \<and> d = \<lparr>year = y, month = mo, day = dd\<rparr>"
    by (rule match_video_elim)
next
  assume "\<exists>y mo dd ns rest.
          filename = ''VID_'' @ y @ mo @ dd @ ''_'' @ ns @ ''.mp4'' @ rest
          \<and> length y = 4 \<and> length mo = 2 \<and> length dd = 2
          \<and> all_digits y \<and> all_digits mo \<and> all_digits dd \<and> ns \<noteq> [] \<and> all_digits ns
          \<and> d = \<lparr>year = y, month = mo, day = dd\<rparr>"
  then show "match_video filename = Some d"
    using match_video_intro by blast
next
  assume "match_video filename = Some d"
  then show "copyvideo e absolutepath filename library st
          = copyfile e absolutepath filename (join (sep e) library (librarypath_of d))
              (librarypath_of d) st"
    by (simp add: copyvideo_def Let_def)
next
  assume "match_video filename = None"
  then show "copyvideo e absolutepath filename library st = (MissingSkipped, st)"
    by (simp add: copyvideo_def)
qed

theorem copyvideo_resolves_date_witness:
  "match_video ''VID_20230401_001.mp4'' = Some \<lparr>year = ''2023'', month = ''04'', day = ''01''\<rparr>
   \<and> match_video ''holiday.mp4'' = None
   \<and> copyvideo posix ''src/holiday.mp4'' ''holiday.mp4'' ''lib''
        (initial [(''src/holiday.mp4'', File ''w'' 0 True)])
      = (MissingSkipped, initial [(''src/holiday.mp4'', File ''w'' 0 True)])"
proof -
  have shape: "\<exists>y mo dd ns rest.
          ''VID_20230401_001.mp4'' = ''VID_'' @ y @ mo @ dd @ ''_'' @ ns @ ''.mp4'' @ rest
          \<and> length y = 4 \<and> length mo = 2 \<and> length dd = 2
          \<and> all_digits y \<and> all_digits mo \<and> all_digits dd \<and> ns \<noteq> [] \<and> all_digits ns
          \<and> \<lparr>year = ''2023'', month = ''04'', day = ''01''\<rparr> = \<lparr>year = y, month = mo, day = dd\<rparr>"
    by (rule exI [of _ "''2023''"], rule exI [of _ "''04''"], rule exI [of _ "''01''"],
        rule exI [of _ "''001''"], rule exI [of _ "[]"])
       (simp add: all_digits_def is_digit_def)
  have one: "match_video ''VID_20230401_001.mp4'' = Some \<lparr>year = ''2023'', month = ''04'', day = ''01''\<rparr>"
    using copyvideo_resolves_date [of "''VID_20230401_001.mp4''"
        "\<lparr>year = ''2023'', month = ''04'', day = ''01''\<rparr>"] shape by blast
  have none: "match_video ''holiday.mp4'' = None"
    by (simp add: match_video_def startswith_def)
  have two: "copyvideo posix ''src/holiday.mp4'' ''holiday.mp4'' ''lib''
        (initial [(''src/holiday.mp4'', File ''w'' 0 True)])
      = (MissingSkipped, initial [(''src/holiday.mp4'', File ''w'' 0 True)])"
    using copyvideo_resolves_date [of "''holiday.mp4''"] none by blast
  show ?thesis using one none two by simp
qed

text \<open>
  C6. The claim: the date is returned exactly when the tag's string matches the exact
  pattern \<^verbatim>\<open>YYYY:MM:DD HH:MM:SS\<close>. The code's pattern has \<^verbatim>\<open>\s\<close> between date and time and
  ends in \<^verbatim>\<open>$\<close>: a tab in place of the space is accepted, and so is a newline after the
  seconds.
\<close>

theorem date_shape_counterexample:
  "\<not> date_shape (''2022:12:25'' @ [CHR 0x09] @ ''10:00:00'')
   \<and> dateregex_match (''2022:12:25'' @ [CHR 0x09] @ ''10:00:00'')
       = Some \<lparr>year = ''2022'', month = ''12'', day = ''25''\<rparr>
   \<and> \<not> date_shape (''2022:12:25 10:00:00'' @ [CHR 0x0A])
   \<and> dateregex_match (''2022:12:25 10:00:00'' @ [CHR 0x0A])
       = Some \<lparr>year = ''2022'', month = ''12'', day = ''25''\<rparr>"
  by (simp add: date_shape_def dateregex_match_def all_digits_def is_digit_def is_space_def)

text \<open>
  C6, as amended. The date of an image is resolved exactly when the tag's string is 4
  digits, a colon, 2 digits, a colon, 2 digits, one whitespace character, 2 digits, a
  colon, 2 digits, a colon, 2 digits, and then nothing or one newline; year, month and
  day are the first three digit groups as they stand, with no check of their values
  (month 13 passes). A readable file with a new key whose name does not end in
  \<^verbatim>\<open>.mp4\<close> is skipped, registered but not moved, when it has no such tag or the tag's
  string does not match, and goes to \<^verbatim>\<open>copyimage\<close> with the date otherwise.
\<close>

theorem image_date_resolution:
  "(dateregex_match s = Some d \<longleftrightarrow>
      (\<exists>y mo dd w hh mi ss nl.
           s = y @ '':'' @ mo @ '':'' @ dd @ [w] @ hh @ '':'' @ mi @ '':'' @ ss @ nl
           \<and> length y = 4 \<and> length mo = 2 \<and> length dd = 2
           \<and> length hh = 2 \<and> length mi = 2 \<and> length ss = 2
           \<and> all_digits y \<and> all_digits mo \<and> all_digits dd
           \<and> all_digits hh \<and> all_digits mi \<and> all_digits ss
           \<and> is_space w \<and> (nl = [] \<or> nl = [CHR 0x0A])
           \<and> d = \<lparr>year = y, month = mo, day = dd\<rparr>))
   \<and> (map_of (fs st) (join (sep e) directory item) = Some (File bytes m True)
       \<and> map_of (hashes st) (fileid_of e bytes) = None
       \<and> \<not> endswith ''.mp4'' item
      \<longrightarrow> importfolder_item e directory library item st =
          (case exif_date e bytes of
             None \<Rightarrow>
               (MissingSkipped,
                st\<lparr>hashes := AList.update (fileid_of e bytes) (join (sep e) directory item) (hashes st)\<rparr>)
           | Some v \<Rightarrow>
              (case dateregex_match v of
                 None \<Rightarrow>
                   (MissingSkipped,
                    st\<lparr>hashes := AList.update (fileid_of e bytes) (join (sep e) directory item) (hashes st)\<rparr>)
               | Some metadata \<Rightarrow>
                   copyimage e (join (sep e) directory item) item library metadata
                    (st\<lparr>hashes := AList.update (fileid_of e bytes) (join (sep e) directory item) (hashes st)\<rparr>))))"
proof (intro conjI impI iffI)
  assume "dateregex_match s = Some d"
  then show "\<exists>y mo dd w hh mi ss nl.
           s = y @ '':'' @ mo @ '':'' @ dd @ [w] @ hh @ '':'' @ mi @ '':'' @ ss @ nl
           \<and> length y = 4 \<and> length mo = 2 \<and> length dd = 2
           \<and> length hh = 2 \<and> length mi = 2 \<and> length ss = 2
           \<and> all_digits y \<and> all_digits mo \<and> all_digits dd
           \<and> all_digits hh \<and> all_digits mi \<and> all_digits ss
           \<and> is_space w \<and> (nl = [] \<or> nl = [CHR 0x0A])
           \<and> d = \<lparr>year = y, month = mo, day = dd\<rparr>"
    by (rule dateregex_match_elim)
next
  assume "\<exists>y mo dd w hh mi ss nl.
           s = y @ '':'' @ mo @ '':'' @ dd @ [w] @ hh @ '':'' @ mi @ '':'' @ ss @ nl
           \<and> length y = 4 \<and> length mo = 2 \<and> length dd = 2
           \<and> length hh = 2 \<and> length mi = 2 \<and> length ss = 2
           \<and> all_digits y \<and> all_digits mo \<and> all_digits dd
           \<and> all_digits hh \<and> all_digits mi \<and> all_digits ss
           \<and> is_space w \<and> (nl = [] \<or> nl = [CHR 0x0A])
           \<and> d = \<lparr>year = y, month = mo, day = dd\<rparr>"
  then show "dateregex_match s = Some d"
    using dateregex_match_intro by blast
next
  assume a: "map_of (fs st) (join (sep e) directory item) = Some (File bytes m True)
       \<and> map_of (hashes st) (fileid_of e bytes) = None
       \<and> \<not> endswith ''.mp4'' item"
  then have f: "map_of (fs st) (join (sep e) directory item) = Some (File bytes m True)"
    and n: "\<not> registered st (fileid_of e bytes)" and i: "\<not> endswith ''.mp4'' item"
    by (simp_all add: registered_def)
  show "importfolder_item e directory library item st =
          (case exif_date e bytes of
             None \<Rightarrow>
               (MissingSkipped,
                st\<lparr>hashes := AList.update (fileid_of e bytes) (join (sep e) directory item) (hashes st)\<rparr>)
           | Some v \<Rightarrow>
              (case dateregex_match v of
                 None \<Rightarrow>
                   (MissingSkipped,
                    st\<lparr>hashes := AList.update (fileid_of e bytes) (join (sep e) directory item) (hashes st)\<rparr>)
               | Some metadata \<Rightarrow>
                   copyimage e (join (sep e) directory item) item library metadata
                    (st\<lparr>hashes := AList.update (fileid_of e bytes) (join (sep e) directory item) (hashes st)\<rparr>)))"
    using f n i
    by (simp add: importfolder_item_def path_isfile_def hashfile_readable Let_def
          split: option.splits)
qed


definition one_image :: state where
  "one_image = initial [(''src/a.jpg'', File ''x'' 0 True)]"

theorem image_date_resolution_witness:
  "dateregex_match ''2022:13:25 10:00:00'' = Some \<lparr>year = ''2022'', month = ''13'', day = ''25''\<rparr>
   \<and> importfolder_item posix ''src'' ''lib'' ''a.jpg'' one_image
       = (MissingSkipped, one_image\<lparr>hashes := [((''x'', 1), ''src/a.jpg'')]\<rparr>)
   \<and> importfolder_item (with_tag ''yesterday'') ''src'' ''lib'' ''a.jpg'' one_image
       = (MissingSkipped, one_image\<lparr>hashes := [((''x'', 1), ''src/a.jpg'')]\<rparr>)"
proof -
  have shape: "\<exists>y mo dd w hh mi ss nl.
           ''2022:13:25 10:00:00'' = y @ '':'' @ mo @ '':'' @ dd @ [w] @ hh @ '':'' @ mi @ '':'' @ ss @ nl
           \<and> length y = 4 \<and> length mo = 2 \<and> length dd = 2
           \<and> length hh = 2 \<and> length mi = 2 \<and> length ss = 2
           \<and> all_digits y \<and> all_digits mo \<and> all_digits dd
           \<and> all_digits hh \<and> all_digits mi \<and> all_digits ss
           \<and> is_space w \<and> (nl = [] \<or> nl = [CHR 0x0A])
           \<and> \<lparr>year = ''2022'', month = ''13'', day = ''25''\<rparr> = \<lparr>year = y, month = mo, day = dd\<rparr>"
    by (rule exI [of _ "''2022''"], rule exI [of _ "''13''"], rule exI [of _ "''25''"],
        rule exI [of _ "CHR '' ''"], rule exI [of _ "''10''"], rule exI [of _ "''00''"],
        rule exI [of _ "''00''"], rule exI [of _ "[]"])
       (simp add: all_digits_def is_digit_def is_space_def)
  have one: "dateregex_match ''2022:13:25 10:00:00''
      = Some \<lparr>year = ''2022'', month = ''13'', day = ''25''\<rparr>"
    using image_date_resolution [of "''2022:13:25 10:00:00''"
        "\<lparr>year = ''2022'', month = ''13'', day = ''25''\<rparr>"] shape by blast
  have j: "join (sep posix) ''src'' ''a.jpg'' = ''src/a.jpg''"
      "join (sep (with_tag ''yesterday'')) ''src'' ''a.jpg'' = ''src/a.jpg''"
    by (simp_all add: join_def posix_def with_tag_def startswith_def endswith_def)
  have f: "map_of (fs one_image) ''src/a.jpg'' = Some (File ''x'' 0 True)"
    by (simp add: one_image_def initial_def)
  have fresh: "map_of (hashes one_image) (fileid_of posix ''x'') = None"
      "map_of (hashes one_image) (fileid_of (with_tag ''yesterday'') ''x'') = None"
    by (simp_all add: one_image_def initial_def)
  have img: "\<not> endswith ''.mp4'' ''a.jpg''"
    by (simp add: endswith_def)
  have bad: "dateregex_match ''yesterday'' = None"
    by (simp add: dateregex_match_def)
  have upd: "AList.update (fileid_of posix ''x'') ''src/a.jpg'' (hashes one_image)
      = [((''x'', 1), ''src/a.jpg'')]"
      "AList.update (fileid_of (with_tag ''yesterday'') ''x'') ''src/a.jpg'' (hashes one_image)
      = [((''x'', 1), ''src/a.jpg'')]"
    by (simp_all add: fileid_of_def posix_def with_tag_def one_image_def initial_def)
  have ex: "exif_date posix ''x'' = None" "exif_date (with_tag ''yesterday'') ''x'' = Some ''yesterday''"
    by (simp_all add: posix_def with_tag_def)
  note t2 = image_date_resolution [of _ _ one_image posix "''src''" "''a.jpg''" "''x''" 0 "''lib''",
        THEN conjunct2, unfolded j upd ex]
  have two: "importfolder_item posix ''src'' ''lib'' ''a.jpg'' one_image
       = (MissingSkipped, one_image\<lparr>hashes := [((''x'', 1), ''src/a.jpg'')]\<rparr>)"
    using t2 f fresh(1) img by simp
  note t3 = image_date_resolution [of _ _ one_image "with_tag ''yesterday''" "''src''" "''a.jpg''" "''x''" 0 "''lib''",
        THEN conjunct2, unfolded j upd ex bad]
  have three: "importfolder_item (with_tag ''yesterday'') ''src'' ''lib'' ''a.jpg'' one_image
       = (MissingSkipped, one_image\<lparr>hashes := [((''x'', 1), ''src/a.jpg'')]\<rparr>)"
    using t3 f fresh(2) img by (simp add: bad)
  show ?thesis using one two three by simp
qed

text \<open>
  C9. The claim: a file is treated as a video exactly when its name matches the video
  shape, and as an image otherwise, its date then coming from the metadata tag. The
  code asks only whether the name ends in \<^verbatim>\<open>.mp4\<close>. A file named \<^verbatim>\<open>holiday.mp4\<close> does not
  have the video shape, and it is still not treated as an image: its tag, a valid date,
  is never read and the file is skipped, where the same file named \<^verbatim>\<open>holiday.jpg\<close> is
  moved.
\<close>

theorem classification_counterexample:
  "\<not> video_shape ''holiday.mp4''
   \<and> importfolder_item (with_tag ''2022:12:25 10:00:00'') ''src'' ''lib'' ''holiday.mp4'' holiday
       = (MissingSkipped, holiday\<lparr>hashes := [((''w'', 1), ''src/holiday.mp4'')]\<rparr>)
   \<and> importfolder_item (with_tag ''2022:12:25 10:00:00'') ''src'' ''lib'' ''holiday.jpg'' holiday_jpg
       = (Moved (xmas_dir @ ''/holiday.jpg''),
          \<lparr>fs = [(xmas_dir, Dir), (xmas_dir @ ''/holiday.jpg'', File ''w'' 0 True)],
           hashes = [((''w'', 1), ''src/holiday.jpg'')], copycount = 1\<rparr>)"
  by (simp add: video_shape_def run_defs with_tag_def posix_def holiday_def holiday_jpg_def
        xmas_dir_def)

text \<open>
  C9, as amended. A regular file that passes the duplicate check is treated as a video
  exactly when its name ends in \<^verbatim>\<open>.mp4\<close>: it is then handed to \<^verbatim>\<open>copyvideo\<close>, whatever the
  rest of its name is, and the metadata tag plays no part in what happens to it.
  Every other file is treated as an image: the tag is obtained from the metadata
  collaborator and the date resolved from it.
\<close>

theorem classification_by_extension:
  "map_of (fs st) (join (sep e) directory item) = Some (File bytes m True)
   \<and> hashfile e (join (sep e) directory item) st = Inr (True, st1)
   \<longrightarrow>
     (endswith ''.mp4'' item \<longrightarrow>
        importfolder_item e directory library item st
          = copyvideo e (join (sep e) directory item) item library st1
        \<and> importfolder_item (e\<lparr>exif_date := tags\<rparr>) directory library item st
          = importfolder_item e directory library item st)
     \<and> (\<not> endswith ''.mp4'' item \<longrightarrow>
        importfolder_item e directory library item st =
          (case exif_date e bytes of
             None \<Rightarrow> (MissingSkipped, st1)
           | Some v \<Rightarrow>
              (case dateregex_match v of
                 None \<Rightarrow> (MissingSkipped, st1)
               | Some metadata \<Rightarrow>
                   copyimage e (join (sep e) directory item) item library metadata st1)))"
proof (intro impI conjI)
  assume a: "map_of (fs st) (join (sep e) directory item) = Some (File bytes m True)
   \<and> hashfile e (join (sep e) directory item) st = Inr (True, st1)"
  then have f: "map_of (fs st) (join (sep e) directory item) = Some (File bytes m True)"
    and h: "hashfile e (join (sep e) directory item) st = Inr (True, st1)" by simp_all
  have isf: "path_isfile (fs st) (join (sep e) directory item)"
    using f by (simp add: path_isfile_def)
  have fs1: "fs st1 = fs st"
    using h by (auto simp: hashfile_readable [OF f] split: if_splits)
  {
    assume v: "endswith ''.mp4'' item"
    show "importfolder_item e directory library item st
          = copyvideo e (join (sep e) directory item) item library st1"
      using isf h v by (simp add: importfolder_item_def)
    show "importfolder_item (e\<lparr>exif_date := tags\<rparr>) directory library item st
          = importfolder_item e directory library item st"
      using v by (simp add: importfolder_item_def hashfile_ignores_tags copyvideo_ignores_tags Let_def
            cong: sum.case_cong prod.case_cong if_cong)
  }
  {
    assume v: "\<not> endswith ''.mp4'' item"
    show "importfolder_item e directory library item st =
          (case exif_date e bytes of
             None \<Rightarrow> (MissingSkipped, st1)
           | Some v \<Rightarrow>
              (case dateregex_match v of
                 None \<Rightarrow> (MissingSkipped, st1)
               | Some metadata \<Rightarrow>
                   copyimage e (join (sep e) directory item) item library metadata st1))"
      using isf h v f fs1 by (simp add: importfolder_item_def)
  }
qed


theorem classification_by_extension_witness:
  "importfolder_item posix ''src'' ''lib'' ''holiday.mp4'' holiday
     = copyvideo posix ''src/holiday.mp4'' ''holiday.mp4'' ''lib''
         (holiday\<lparr>hashes := [((''w'', 1), ''src/holiday.mp4'')]\<rparr>)
   \<and> importfolder_item (with_tag ''2022:12:25 10:00:00'') ''src'' ''lib'' ''holiday.mp4'' holiday
     = importfolder_item posix ''src'' ''lib'' ''holiday.mp4'' holiday
   \<and> importfolder_item (with_tag ''2022:12:25 10:00:00'') ''src'' ''lib'' ''holiday.jpg'' holiday_jpg
     = copyimage (with_tag ''2022:12:25 10:00:00'') ''src/holiday.jpg'' ''holiday.jpg'' ''lib''
         \<lparr>year = ''2022'', month = ''12'', day = ''25''\<rparr>
         (holiday_jpg\<lparr>hashes := [((''w'', 1), ''src/holiday.jpg'')]\<rparr>)"
proof -
  let ?tag = "''2022:12:25 10:00:00''"
  have j: "join (sep posix) ''src'' ''holiday.mp4'' = ''src/holiday.mp4''"
      "join (sep (with_tag ?tag)) ''src'' ''holiday.jpg'' = ''src/holiday.jpg''"
    by (simp_all add: join_def posix_def with_tag_def startswith_def endswith_def)
  have f1: "map_of (fs holiday) ''src/holiday.mp4'' = Some (File ''w'' 0 True)"
    by (simp add: holiday_def initial_def)
  have h1: "hashfile posix ''src/holiday.mp4'' holiday
      = Inr (True, holiday\<lparr>hashes := [((''w'', 1), ''src/holiday.mp4'')]\<rparr>)"
    by (simp add: hashfile_def foldl_append_chunks holiday_def initial_def posix_def)
  have v1: "endswith ''.mp4'' ''holiday.mp4''" by (simp add: endswith_def)
  note t1 = classification_by_extension
    [of holiday posix "''src''" "''holiday.mp4''" "''w''" 0
        "holiday\<lparr>hashes := [((''w'', 1), ''src/holiday.mp4'')]\<rparr>" "''lib''"
        "\<lambda>bytes. Some ?tag", unfolded j]
  have one: "importfolder_item posix ''src'' ''lib'' ''holiday.mp4'' holiday
     = copyvideo posix ''src/holiday.mp4'' ''holiday.mp4'' ''lib''
         (holiday\<lparr>hashes := [((''w'', 1), ''src/holiday.mp4'')]\<rparr>)"
    and two: "importfolder_item (with_tag ?tag) ''src'' ''lib'' ''holiday.mp4'' holiday
     = importfolder_item posix ''src'' ''lib'' ''holiday.mp4'' holiday"
    using t1 f1 h1 v1 by (simp_all add: with_tag_def)
  have f2: "map_of (fs holiday_jpg) ''src/holiday.jpg'' = Some (File ''w'' 0 True)"
    by (simp add: holiday_jpg_def initial_def)
  have h2: "hashfile (with_tag ?tag) ''src/holiday.jpg'' holiday_jpg
      = Inr (True, holiday_jpg\<lparr>hashes := [((''w'', 1), ''src/holiday.jpg'')]\<rparr>)"
    by (simp add: hashfile_def foldl_append_chunks holiday_jpg_def initial_def posix_def with_tag_def)
  have v2: "\<not> endswith ''.mp4'' ''holiday.jpg''" by (simp add: endswith_def)
  have ex: "exif_date (with_tag ?tag) ''w'' = Some ?tag" by (simp add: with_tag_def)
  have dm: "dateregex_match ?tag = Some \<lparr>year = ''2022'', month = ''12'', day = ''25''\<rparr>"
    by (simp add: dateregex_match_def all_digits_def is_digit_def is_space_def)
  note t2 = classification_by_extension
    [of holiday_jpg "with_tag ?tag" "''src''" "''holiday.jpg''" "''w''" 0
        "holiday_jpg\<lparr>hashes := [((''w'', 1), ''src/holiday.jpg'')]\<rparr>" "''lib''", unfolded j]
  have three: "importfolder_item (with_tag ?tag) ''src'' ''lib'' ''holiday.jpg'' holiday_jpg
     = copyimage (with_tag ?tag) ''src/holiday.jpg'' ''holiday.jpg'' ''lib''
         \<lparr>year = ''2022'', month = ''12'', day = ''25''\<rparr>
         (holiday_jpg\<lparr>hashes := [((''w'', 1), ''src/holiday.jpg'')]\<rparr>)"
    using t2 f2 h2 v2 by (simp add: ex dm)
  show ?thesis using one two three by simp
qed

text \<open>
  C3. The claim: on a collision with different content the suffix goes immediately
  before the extension, and names without an extension or with several full stops are
  handled without corrupting the base name. The code splits the name at every full
  stop and uses the first two parts only. For a name without a full stop there is no
  second part: \<^verbatim>\<open>newfilename[1]\<close> raises \<^verbatim>\<open>IndexError\<close>, which nothing catches, and the run
  ends. For \<^verbatim>\<open>holiday.2022.jpg\<close> the new name is \<^verbatim>\<open>holiday-1.2022\<close>: the suffix is not before
  the extension, and the extension is lost.
\<close>

theorem suffix_split_on_first_dot:
  "copyfile posix ''src/IMG'' ''IMG'' ''lib'' []
     (initial [(''src/IMG'', File ''a'' 0 True), (''lib'', Dir), (''lib/IMG'', File ''bb'' 1 True)])
   = (Raised IndexError,
      initial [(''src/IMG'', File ''a'' 0 True), (''lib'', Dir), (''lib/IMG'', File ''bb'' 1 True)])
   \<and> copyfile posix ''src/holiday.2022.jpg'' ''holiday.2022.jpg'' ''lib'' []
     (initial [(''src/holiday.2022.jpg'', File ''a'' 0 True), (''lib'', Dir),
               (''lib/holiday.2022.jpg'', File ''bb'' 1 True)])
   = (RenamedMoved ''lib/holiday-1.2022'',
      \<lparr>fs = [(''lib'', Dir), (''lib/holiday.2022.jpg'', File ''bb'' 1 True),
             (''lib/holiday-1.2022'', File ''a'' 0 True)],
       hashes = [], copycount = 1\<rparr>)"
  by (simp add: run_defs posix_def str_nat_1)

text \<open>
  C8. The claim: every per-file error, a read failure during the digest included, is
  not fatal to the run, and processing goes on with the next file. \<^verbatim>\<open>hashfile\<close> opens the
  file outside of any \<^verbatim>\<open>try\<close>: for a file that cannot be read the exception leaves
  \<^verbatim>\<open>importfolder\<close> and \<^verbatim>\<open>main\<close>, and the items after it are not processed. Here the video
  listed after an unreadable image stays where it is, although alone it is moved.
\<close>

theorem read_failure_ends_run:
  "importfolder posix ''src'' ''lib'' [''a.jpg'', ''VID_20230401_001.mp4'']
     (initial [(''src/a.jpg'', File ''aa'' 5 False), (''src/VID_20230401_001.mp4'', File ''v'' 0 True)])
   = ([Raised OSError],
      initial [(''src/a.jpg'', File ''aa'' 5 False), (''src/VID_20230401_001.mp4'', File ''v'' 0 True)])
   \<and> importfolder posix ''src'' ''lib'' [''VID_20230401_001.mp4'']
     (initial [(''src/a.jpg'', File ''aa'' 5 False), (''src/VID_20230401_001.mp4'', File ''v'' 0 True)])
   = ([Moved (dated_dir @ ''/VID_20230401_001.mp4'')],
      \<lparr>fs = [(''src/a.jpg'', File ''aa'' 5 False), (dated_dir, Dir),
             (dated_dir @ ''/VID_20230401_001.mp4'', File ''v'' 0 True)],
       hashes = [((''v'', 1), ''src/VID_20230401_001.mp4'')], copycount = 1\<rparr>)"
  by (simp add: run_defs posix_def dated_dir_def)

text \<open>
  X1. Processing an item changes no entry of the file system but the item's own: every
  other path that exists keeps its node, so no file of the library is overwritten or
  removed, also not by a later item, and no completed move is undone. When the item is
  moved, the path it is moved to was unoccupied, and afterwards holds the file while its
  old path is empty.
\<close>

theorem placement_never_overwrites:
  assumes "importfolder_item e directory library item st = (out, st')"
  shows "(\<forall>q. q \<noteq> join (sep e) directory item \<and> path_exists (fs st) q
            \<longrightarrow> map_of (fs st') q = map_of (fs st) q)
       \<and> (\<forall>p. out = Moved p \<or> out = RenamedMoved p \<longrightarrow>
             \<not> path_exists (fs st) p
             \<and> map_of (fs st') p = map_of (fs st) (join (sep e) directory item)
             \<and> map_of (fs st') (join (sep e) directory item) = None)"
  using item_fs [OF assms] by blast

theorem placement_never_overwrites_witness:
  "fst (importfolder_item (with_tag ''2022:12:25 10:00:00'') ''src'' ''lib'' ''a.jpg'' crowded)
     = RenamedMoved (xmas_dir @ ''/a-2.jpg'')
   \<and> map_of (fs (snd (importfolder_item (with_tag ''2022:12:25 10:00:00'') ''src'' ''lib'' ''a.jpg'' crowded)))
        (xmas_dir @ ''/a.jpg'') = Some (File ''bb'' 6 True)
   \<and> map_of (fs (snd (importfolder_item (with_tag ''2022:12:25 10:00:00'') ''src'' ''lib'' ''a.jpg'' crowded)))
        (xmas_dir @ ''/a-2.jpg'') = Some (File ''aa'' 5 True)
   \<and> map_of (fs (snd (importfolder_item (with_tag ''2022:12:25 10:00:00'') ''src'' ''lib'' ''a.jpg'' crowded)))
        ''src/a.jpg'' = None"
proof -
  let ?e = "with_tag ''2022:12:25 10:00:00''"
  let ?r = "importfolder_item ?e ''src'' ''lib'' ''a.jpg'' crowded"
  have out: "fst ?r = RenamedMoved (xmas_dir @ ''/a-2.jpg'')"
    by (simp add: run_defs with_tag_def posix_def crowded_def xmas_dir_def str_nat_1 str_nat_2)
  have j: "join (sep ?e) ''src'' ''a.jpg'' = ''src/a.jpg''"
    by (simp add: join_def posix_def with_tag_def startswith_def endswith_def)
  have ex: "path_exists (fs crowded) (xmas_dir @ ''/a.jpg'')"
    and old: "map_of (fs crowded) (xmas_dir @ ''/a.jpg'') = Some (File ''bb'' 6 True)"
    and src: "map_of (fs crowded) ''src/a.jpg'' = Some (File ''aa'' 5 True)"
    and ne: "xmas_dir @ ''/a.jpg'' \<noteq> ''src/a.jpg''"
    by (simp_all add: crowded_def initial_def path_exists_def xmas_dir_def)
  note t = placement_never_overwrites [of ?e "''src''" "''lib''" "''a.jpg''" crowded "fst ?r" "snd ?r",
      unfolded j, simplified]
  have keep: "map_of (fs (snd ?r)) (xmas_dir @ ''/a.jpg'') = Some (File ''bb'' 6 True)"
    using t ex old ne by simp
  have moved: "map_of (fs (snd ?r)) (xmas_dir @ ''/a-2.jpg'') = Some (File ''aa'' 5 True)
      \<and> map_of (fs (snd ?r)) ''src/a.jpg'' = None"
    using t out src by simp
  show ?thesis using out keep moved by simp
qed

text \<open>
  X2. When the date of a file cannot be resolved, its directory cannot be created, or
  the final rename fails, the file's entry in the file system is as before, the counter
  is not incremented, and the loop goes on with the next item.
\<close>

theorem per_file_errors_are_skipped:
  assumes "importfolder_item e directory library item st = (out, st')"
    and "out = MissingSkipped \<or> out = DirError \<or> out = MoveError"
  shows "map_of (fs st') (join (sep e) directory item) = map_of (fs st) (join (sep e) directory item)
       \<and> copycount st' = copycount st
       \<and> importfolder e directory library (item # items) st
           = (out # fst (importfolder e directory library items st'),
              snd (importfolder e directory library items st'))"
proof -
  have nm: "\<not> is_moved out" and nr: "\<not> is_raised out" using assms(2) by auto
  have "map_of (fs st') (join (sep e) directory item) = map_of (fs st) (join (sep e) directory item)"
    using item_fs [OF assms(1)] nm by blast
  moreover have "copycount st' = copycount st"
    using item_copycount [OF assms(1)] nm by simp
  moreover have "importfolder e directory library (item # items) st
           = (out # fst (importfolder e directory library items st'),
              snd (importfolder e directory library items st'))"
    using assms(1) nr by (simp add: split_def Let_def)
  ultimately show ?thesis by blast
qed

theorem per_file_errors_are_skipped_witness:
  "importfolder_item readonly_library ''src'' ''lib'' ''VID_20230401_001.mp4'' (initial three_videos)
     = (DirError,
        \<lparr>fs = three_videos, hashes = [((''v'', 1), ''src/VID_20230401_001.mp4'')], copycount = 0\<rparr>)
   \<and> importfolder readonly_library ''src'' ''lib'' [''VID_20230401_001.mp4'', ''holiday.mp4'']
        (initial three_videos)
     = ([DirError, MissingSkipped],
        \<lparr>fs = three_videos,
         hashes = [((''v'', 1), ''src/VID_20230401_001.mp4''), ((''ww'', 2), ''src/holiday.mp4'')],
         copycount = 0\<rparr>)"
proof -
  let ?st1 = "\<lparr>fs = three_videos, hashes = [((''v'', 1), ''src/VID_20230401_001.mp4'')], copycount = 0\<rparr>"
  have one: "importfolder_item readonly_library ''src'' ''lib'' ''VID_20230401_001.mp4'' (initial three_videos)
     = (DirError, ?st1)"
    by (simp add: run_defs readonly_library_def posix_def three_videos_def)
  have rest: "importfolder readonly_library ''src'' ''lib'' [''holiday.mp4''] ?st1
     = ([MissingSkipped],
        \<lparr>fs = three_videos,
         hashes = [((''v'', 1), ''src/VID_20230401_001.mp4''), ((''ww'', 2), ''src/holiday.mp4'')],
         copycount = 0\<rparr>)"
    by (simp add: run_defs readonly_library_def posix_def three_videos_def)
  note t = per_file_errors_are_skipped [OF one, of "[''holiday.mp4'']"]
  have two: "importfolder readonly_library ''src'' ''lib'' [''VID_20230401_001.mp4'', ''holiday.mp4'']
        (initial three_videos)
     = ([DirError, MissingSkipped],
        \<lparr>fs = three_videos,
         hashes = [((''v'', 1), ''src/VID_20230401_001.mp4''), ((''ww'', 2), ''src/holiday.mp4'')],
         copycount = 0\<rparr>)"
    using t rest by simp
  show ?thesis using one two by simp
qed

end
